theory Spec2Isabelle
  imports Main "HOL-Library.Sublist"
begin

section \<open>Python values, errors and iteration\<close>

text \<open>
  Exceptions are values: every function that can raise returns \<open>error + 'a\<close>, with
  \<open>Inl\<close> the exception. \<open>OtherError\<close> stands for whatever an external library
  (requests, datauri, PIL) raises.
\<close>

datatype error =
    ValueError string
  | TypeError
  | AttributeError
  | IndexError
  | UnboundLocalError
  | KeyError
  | OtherError string

fun ebind :: "error + 'a \<Rightarrow> ('a \<Rightarrow> error + 'b) \<Rightarrow> error + 'b" where
  "ebind (Inl e) f = Inl e"
| "ebind (Inr x) f = f x"

text \<open>\<^verbatim>\<open>s.startswith(p)\<close>\<close>

definition startswith :: "string \<Rightarrow> string \<Rightarrow> bool" where
  "startswith s p = (take (length p) s = p)"

text \<open>
  An \<^verbatim>\<open>Optional[str]\<close> interpolated into an f-string: \<^verbatim>\<open>f"{None}"\<close> is the
  four characters \<^verbatim>\<open>None\<close>.
\<close>

definition fmt :: "string option \<Rightarrow> string" where
  "fmt t = (case t of None \<Rightarrow> ''None'' | Some s \<Rightarrow> s)"

text \<open>\<^verbatim>\<open>s + t\<close> for a string \<open>s\<close> and an \<^verbatim>\<open>Optional[str]\<close> \<open>t\<close>: a TypeError on None.\<close>

definition add_str :: "string \<Rightarrow> string option \<Rightarrow> error + string" where
  "add_str s t = (case t of None \<Rightarrow> Inl TypeError | Some u \<Rightarrow> Inr (s @ u))"

text \<open>A \<^verbatim>\<open>for x in xs: body\<close> loop over a state, abandoned at the first exception.\<close>

fun for_each :: "('a \<Rightarrow> 's \<Rightarrow> error + 's) \<Rightarrow> 'a list \<Rightarrow> 's \<Rightarrow> error + 's" where
  "for_each body [] s = Inr s"
| "for_each body (x # xs) s = ebind (body x s) (for_each body xs)"

section \<open>The message model\<close>

record ImageURL =
  url :: string
  detail :: "string option"

datatype content_type = Text | Image_url

record Content =
  type :: content_type
  c_text :: "string option"
  image_url :: "ImageURL option"

text \<open>\<^verbatim>\<open>content: Union[str, List[Content]]\<close>\<close>

datatype content = Str string | Parts "Content list"

record Message =
  role :: string
  content :: content
  name :: "string option"

text \<open>
  \<^verbatim>\<open>for c in m.content: ... c.type ...\<close>. Every such loop of the source reads
  \<^verbatim>\<open>c.type\<close> (or \<^verbatim>\<open>c.text\<close>) first; when the content is still a bare string, \<open>c\<close>
  is a one-character string and the read raises AttributeError, unless the string is
  empty and the loop has nothing to do.
\<close>

fun for_content :: "(Content \<Rightarrow> 's \<Rightarrow> error + 's) \<Rightarrow> content \<Rightarrow> 's \<Rightarrow> error + 's" where
  "for_content body (Parts cs) s = for_each body cs s"
| "for_content body (Str str) s = (if str = [] then Inr s else Inl AttributeError)"

text \<open>\<^verbatim>\<open>m.content[0].text\<close>\<close>

fun content_0_text :: "content \<Rightarrow> error + string option" where
  "content_0_text (Parts []) = Inl IndexError"
| "content_0_text (Parts (c # cs)) = Inr (c_text c)"
| "content_0_text (Str []) = Inl IndexError"
| "content_0_text (Str (ch # str)) = Inl AttributeError"

text \<open>\<^verbatim>\<open>c.image_url.url\<close>\<close>

definition image_url_url :: "Content \<Rightarrow> error + string" where
  "image_url_url c = (case image_url c of None \<Rightarrow> Inl AttributeError | Some u \<Rightarrow> Inr (url u))"

section \<open>Image loading\<close>

text \<open>
  The libraries behind \<^verbatim>\<open>url_to_image\<close> are parameters:
  \<open>requests_get u\<close> is \<^verbatim>\<open>requests.get(u).content\<close>, \<open>datauri_data u\<close> is
  \<^verbatim>\<open>DataURI(u).data\<close> and \<open>image_open d\<close> is
  \<^verbatim>\<open>Image.open(io.BytesIO(d)).convert("RGB")\<close>; \<open>'b\<close> is the type of byte strings
  and \<open>'i\<close> the type of images.
\<close>

record ('b, 'i) libs =
  requests_get :: "string \<Rightarrow> error + 'b"
  datauri_data :: "string \<Rightarrow> error + 'b"
  image_open :: "'b \<Rightarrow> error + 'i"

text \<open>
  When neither branch is taken \<^verbatim>\<open>img_data\<close> is unbound at the \<^verbatim>\<open>return\<close>.
\<close>

definition url_to_image :: "('b, 'i) libs \<Rightarrow> string \<Rightarrow> error + 'i" where
  "url_to_image env img_url =
     (if startswith img_url ''http'' then
        ebind (requests_get env img_url) (image_open env)
      else if startswith img_url ''data:'' then
        ebind (datauri_data env img_url) (image_open env)
      else Inl UnboundLocalError)"

section \<open>Format functions\<close>

text \<open>
  A format function receives the caller's list object and may \<^verbatim>\<open>pop\<close> from it, so
  its model returns a pair: the caller's list as the call leaves it, and the value
  returned (or the exception raised).

  The opening of the functions that continue a trailing assistant message:
  \<^verbatim>\<open>
    if messages and messages[-1].role == 'assistant':
        generation_msg += messages[-1].content[0].text
        messages.pop(-1)
  \<close>
\<close>

definition trailing_assistant :: "string \<Rightarrow> Message list \<Rightarrow> Message list \<times> (error + string)" where
  "trailing_assistant generation_msg messages =
     (if messages \<noteq> [] \<and> role (last messages) = ''assistant'' then
        (case ebind (content_0_text (content (last messages))) (add_str generation_msg) of
           Inl e \<Rightarrow> (messages, Inl e)
         | Inr generation_msg' \<Rightarrow> (butlast messages, Inr generation_msg'))
      else (messages, Inr generation_msg))"

text \<open>
  The body of the user branch shared by the vicuna-style functions:
  \<^verbatim>\<open>
    if c.type == 'image_url':
        images.extend([ await url_to_image(c.image_url.url) ])
        img_tag += img_tok
    if c.type == 'text':
        text = c.text
  \<close>
\<close>

definition image_and_text ::
  "('b, 'i) libs \<Rightarrow> string \<Rightarrow> Content \<Rightarrow> 'i list \<times> string \<times> string option
     \<Rightarrow> error + 'i list \<times> string \<times> string option" where
  "image_and_text env img_tok c = (\<lambda>(images, img_tag, text).
     ebind (if type c = Image_url then
              ebind (image_url_url c) (\<lambda>u.
              ebind (url_to_image env u) (\<lambda>img.
              Inr (images @ [img], img_tag @ img_tok)))
            else Inr (images, img_tag))
       (\<lambda>(images, img_tag).
          Inr (images, img_tag, if type c = Text then c_text c else text)))"

text \<open>
  \<^verbatim>\<open>
    for c in m.content:
        if c.type == 'text':
            prompt += f"...{c.text}..."
  \<close>
\<close>

definition text_part :: "(string \<Rightarrow> string) \<Rightarrow> Content \<Rightarrow> string \<Rightarrow> error + string" where
  "text_part template c prompt =
     Inr (if type c = Text then prompt @ template (fmt (c_text c)) else prompt)"

text \<open>
  One turn of the \<^verbatim>\<open>for m in messages\<close> loop of the functions that branch on the
  role (vicuna0, vicuna, llama2, chatml, gemma, phintern, falcon). The three
  templates are the f-strings of the branches; phintern has no system branch.
\<close>

definition role_message ::
  "('b, 'i) libs \<Rightarrow> string \<Rightarrow> (string \<Rightarrow> string \<Rightarrow> string) \<Rightarrow> (string \<Rightarrow> string)
     \<Rightarrow> (string \<Rightarrow> string) option \<Rightarrow> Message \<Rightarrow> 'i list \<times> string \<Rightarrow> error + 'i list \<times> string" where
  "role_message env img_tok user_t assistant_t system_t m = (\<lambda>(images, prompt).
     if role m = ''user'' then
       ebind (for_content (image_and_text env img_tok) (content m) (images, '''', Some ''''))
         (\<lambda>(images, img_tag, text). Inr (images, prompt @ user_t img_tag (fmt text)))
     else if role m = ''assistant'' then
       ebind (for_content (text_part assistant_t) (content m) prompt)
         (\<lambda>prompt. Inr (images, prompt))
     else if role m = ''system'' \<and> system_t \<noteq> None then
       ebind (for_content (text_part (the system_t)) (content m) prompt)
         (\<lambda>prompt. Inr (images, prompt))
     else Inr (images, prompt))"

text \<open>The whole of such a function, with or without the opening.\<close>

definition with_generation_msg ::
  "string \<Rightarrow> (Message \<Rightarrow> 'i list \<times> string \<Rightarrow> error + 'i list \<times> string) \<Rightarrow> string
     \<Rightarrow> Message list \<Rightarrow> Message list \<times> (error + 'i list \<times> string)" where
  "with_generation_msg generation_msg turn prompt0 messages =
     (case trailing_assistant generation_msg messages of
        (messages', Inl e) \<Rightarrow> (messages', Inl e)
      | (messages', Inr generation_msg') \<Rightarrow>
          (messages',
           ebind (for_each turn messages' ([], prompt0))
             (\<lambda>(images, prompt). Inr (images, prompt @ generation_msg'))))"

definition chatml_prompt_from_messages ::
  "('b, 'i) libs \<Rightarrow> string \<Rightarrow> Message list \<Rightarrow> Message list \<times> (error + 'i list \<times> string)" where
  "chatml_prompt_from_messages env img_tok =
     with_generation_msg ''<|im_start|>assistant\<newline>''
       (role_message env img_tok
          (\<lambda>img_tag text. ''<|im_start|>user\<newline>'' @ img_tag @ text @ ''<|im_end|>'')
          (\<lambda>text. ''<|im_start|>assistant\<newline>'' @ text @ ''<|im_end|>'')
          (Some (\<lambda>text. ''<|im_start|>system\<newline>'' @ text @ ''<|im_end|>''))) []"

definition without_generation_msg ::
  "(Message \<Rightarrow> 'i list \<times> string \<Rightarrow> error + 'i list \<times> string) \<Rightarrow> string
     \<Rightarrow> Message list \<Rightarrow> Message list \<times> (error + 'i list \<times> string)" where
  "without_generation_msg turn prompt0 messages = (messages, for_each turn messages ([], prompt0))"

definition vicuna0_prompt_from_messages ::
  "('b, 'i) libs \<Rightarrow> string \<Rightarrow> Message list \<Rightarrow> Message list \<times> (error + 'i list \<times> string)" where
  "vicuna0_prompt_from_messages env img_tok =
     with_generation_msg ''### Assistant:''
       (role_message env img_tok
          (\<lambda>img_tag text. ''### Human: '' @ img_tag @ text @ ''\<newline>'')
          (\<lambda>text. ''### Assistant: '' @ text @ ''\<newline>'')
          (Some (\<lambda>text. text @ ''\<newline>\<newline>''))) []"

definition vicuna_prompt_from_messages ::
  "('b, 'i) libs \<Rightarrow> string \<Rightarrow> Message list \<Rightarrow> Message list \<times> (error + 'i list \<times> string)" where
  "vicuna_prompt_from_messages env img_tok =
     with_generation_msg ''ASSISTANT:''
       (role_message env img_tok
          (\<lambda>img_tag text. ''USER: '' @ img_tag @ text @ ''\<newline>'')
          (\<lambda>text. ''ASSISTANT: '' @ text @ ''\<newline>'')
          (Some (\<lambda>text. text @ ''\<newline>\<newline>''))) []"

definition llama2_prompt_from_messages ::
  "('b, 'i) libs \<Rightarrow> string \<Rightarrow> Message list \<Rightarrow> Message list \<times> (error + 'i list \<times> string)" where
  "llama2_prompt_from_messages env img_tok =
     without_generation_msg
       (role_message env img_tok
          (\<lambda>img_tag text. ''[INST] '' @ img_tag @ text @ '' [/INST]'')
          (\<lambda>text. '' '' @ text)
          (Some (\<lambda>text. ''[INST] <<SYS>>\<newline>'' @ text @ ''\<newline><</SYS>> [/INST]''))) []"

definition gemma_prompt_from_messages ::
  "('b, 'i) libs \<Rightarrow> string \<Rightarrow> Message list \<Rightarrow> Message list \<times> (error + 'i list \<times> string)" where
  "gemma_prompt_from_messages env img_tok =
     with_generation_msg ''<start_of_turn>model\<newline>''
       (role_message env img_tok
          (\<lambda>img_tag text. ''<start_of_turn>user\<newline>'' @ img_tag @ text @ ''<end_of_turn>'')
          (\<lambda>text. ''<start_of_turn>model\<newline>'' @ text @ ''<end_of_turn>'')
          (Some (\<lambda>text. ''<start_of_turn>system\<newline>'' @ text @ ''<end_of_turn>''))) []"

definition phintern_prompt_from_messages ::
  "('b, 'i) libs \<Rightarrow> string \<Rightarrow> Message list \<Rightarrow> Message list \<times> (error + 'i list \<times> string)" where
  "phintern_prompt_from_messages env img_tok =
     with_generation_msg ''<s><|assistant|>\<newline>''
       (role_message env img_tok
          (\<lambda>img_tag text. ''<s><|user|>\<newline>'' @ img_tag @ text @ ''<|end|>'')
          (\<lambda>text. ''<s><|assistant|>\<newline>'' @ text @ ''<|end|>'')
          None) []"

definition falcon_prompt_from_messages ::
  "('b, 'i) libs \<Rightarrow> string \<Rightarrow> Message list \<Rightarrow> Message list \<times> (error + 'i list \<times> string)" where
  "falcon_prompt_from_messages env img_tok =
     with_generation_msg ''Falcon:''
       (role_message env img_tok
          (\<lambda>img_tag text. ''User:'' @ img_tag @ text @ '' '')
          (\<lambda>text. ''Falcon:'' @ text)
          (Some (\<lambda>text. text @ ''\<newline>\<newline>''))) []"

text \<open>
  phi15 and fuyu put the image token in front of what the turn has so far:
  \<^verbatim>\<open>
    if c.type == 'image_url':
        img_data = await url_handler(c.image_url.url)
        images.extend([img_data])
        p = img_tok.format(img_data) + p + img_end
    if c.type == 'text':
        p += f"{c.text}\n\n"
  \<close>
  \<open>img_tok\<close> is the function \<^verbatim>\<open>img_tok.format\<close>; for the default token, which has
  no replacement field, it is constant.
\<close>

definition image_around_text ::
  "(string \<Rightarrow> error + 'i) \<Rightarrow> ('i \<Rightarrow> string) \<Rightarrow> string \<Rightarrow> Content \<Rightarrow> 'i list \<times> string
     \<Rightarrow> error + 'i list \<times> string" where
  "image_around_text url_handler img_tok img_end c = (\<lambda>(images, p).
     ebind (if type c = Image_url then
              ebind (image_url_url c) (\<lambda>u.
              ebind (url_handler u) (\<lambda>img_data.
              Inr (images @ [img_data], img_tok img_data @ p @ img_end)))
            else Inr (images, p))
       (\<lambda>(images, p).
          Inr (images, if type c = Text then p @ fmt (c_text c) @ ''\<newline>\<newline>'' else p)))"

definition question_message ::
  "(string \<Rightarrow> error + 'i) \<Rightarrow> ('i \<Rightarrow> string) \<Rightarrow> string \<Rightarrow> (string \<Rightarrow> string) \<Rightarrow> (string \<Rightarrow> string)
     \<Rightarrow> Message \<Rightarrow> 'i list \<times> string \<Rightarrow> error + 'i list \<times> string" where
  "question_message url_handler img_tok img_end assistant_t system_t m = (\<lambda>(images, prompt).
     if role m = ''user'' then
       ebind (for_content (image_around_text url_handler img_tok img_end) (content m) (images, []))
         (\<lambda>(images, p). Inr (images, prompt @ p))
     else if role m = ''assistant'' then
       ebind (for_content (text_part assistant_t) (content m) prompt)
         (\<lambda>prompt. Inr (images, prompt))
     else if role m = ''system'' then
       ebind (for_content (text_part system_t) (content m) prompt)
         (\<lambda>prompt. Inr (images, prompt))
     else Inr (images, prompt))"

definition phi15_prompt_from_messages ::
  "(string \<Rightarrow> error + 'i) \<Rightarrow> ('i \<Rightarrow> string) \<Rightarrow> string \<Rightarrow> Message list
     \<Rightarrow> Message list \<times> (error + 'i list \<times> string)" where
  "phi15_prompt_from_messages url_handler img_tok img_end =
     with_generation_msg ''Answer:''
       (question_message url_handler img_tok img_end
          (\<lambda>text. ''Answer: '' @ text @ ''\<newline>\<newline>'')
          (\<lambda>text. text @ ''\<newline>\<newline>'')) []"

definition fuyu_prompt_from_messages ::
  "('b, 'i) libs \<Rightarrow> string \<Rightarrow> string \<Rightarrow> Message list \<Rightarrow> Message list \<times> (error + 'i list \<times> string)" where
  "fuyu_prompt_from_messages env img_tok img_end =
     without_generation_msg
       (question_message (url_to_image env) (\<lambda>img. img_tok) img_end
          (\<lambda>text. CHR 0x04 # text @ ''\<newline>'')
          (\<lambda>text. text @ ''\<newline>\<newline>'')) []"

text \<open>
  llama3, phi3, glm4v and florence do not branch on the role: each message is
  walked twice, once for its images and once for its texts.
  \<^verbatim>\<open>
    if c.type == 'image_url':
        images.extend([ await url_handler(c.image_url.url) ])
        img_tag += img_tok
  \<close>
\<close>

definition image_part ::
  "(string \<Rightarrow> error + 'i) \<Rightarrow> string \<Rightarrow> Content \<Rightarrow> 'i list \<times> string \<Rightarrow> error + 'i list \<times> string" where
  "image_part url_handler img_tok c = (\<lambda>(images, img_tag).
     if type c = Image_url then
       ebind (image_url_url c) (\<lambda>u.
       ebind (url_handler u) (\<lambda>img.
       Inr (images @ [img], img_tag @ img_tok)))
     else Inr (images, img_tag))"

text \<open>
  \<^verbatim>\<open>
    for c in m.content:
        if c.type == 'text':
            prompt += f"...{m.role}...{img_tag}{c.text}..."
  \<close>
  The template may raise (llama3 calls \<^verbatim>\<open>c.text.strip()\<close>).
\<close>

definition text_after_images ::
  "(string option \<Rightarrow> error + string) \<Rightarrow> Content \<Rightarrow> string \<Rightarrow> error + string" where
  "text_after_images template c prompt =
     (if type c = Text then ebind (template (c_text c)) (\<lambda>s. Inr (prompt @ s)) else Inr prompt)"

definition header_message ::
  "(string \<Rightarrow> error + 'i) \<Rightarrow> string \<Rightarrow> (string \<Rightarrow> string \<Rightarrow> string option \<Rightarrow> error + string)
     \<Rightarrow> Message \<Rightarrow> 'i list \<times> string \<Rightarrow> error + 'i list \<times> string" where
  "header_message url_handler img_tok template m = (\<lambda>(images, prompt).
     ebind (for_content (image_part url_handler img_tok) (content m) (images, []))
       (\<lambda>(images, img_tag).
     ebind (for_content (text_after_images (template (role m) img_tag)) (content m) prompt)
       (\<lambda>prompt. Inr (images, prompt))))"

text \<open>
  \<^verbatim>\<open>str.strip()\<close>. A character stands for a code point below 256; the white
  space among these is what \<^verbatim>\<open>str.isspace\<close> accepts there.
\<close>

definition is_space :: "char \<Rightarrow> bool" where
  "is_space ch = (ch \<in> set [CHR 0x09, CHR 0x0A, CHR 0x0B, CHR 0x0C, CHR 0x0D,
                           CHR 0x1C, CHR 0x1D, CHR 0x1E, CHR 0x1F, CHR 0x20,
                           CHR 0x85, CHR 0xA0])"

definition strip :: "string \<Rightarrow> string" where
  "strip s = rev (dropWhile is_space (rev (dropWhile is_space s)))"

definition llama3_prompt_from_messages ::
  "('b, 'i) libs \<Rightarrow> string \<Rightarrow> Message list \<Rightarrow> Message list \<times> (error + 'i list \<times> string)" where
  "llama3_prompt_from_messages env img_tok =
     with_generation_msg ''<|start_header_id|>assistant<|end_header_id|>\<newline>\<newline>''
       (header_message (url_to_image env) img_tok
          (\<lambda>role img_tag text.
             case text of
               None \<Rightarrow> Inl AttributeError
             | Some t \<Rightarrow> Inr (''<|start_header_id|>'' @ role @ ''<|end_header_id|>\<newline>\<newline>''
                              @ img_tag @ strip t @ ''<|eot_id|>''))) []"

definition glm4v_prompt_from_messages ::
  "(string \<Rightarrow> error + 'i) \<Rightarrow> string \<Rightarrow> Message list \<Rightarrow> Message list \<times> (error + 'i list \<times> string)" where
  "glm4v_prompt_from_messages url_handler img_tok =
     with_generation_msg ''<|assistant|>\<newline>''
       (header_message url_handler img_tok
          (\<lambda>role img_tag text. Inr (''<|'' @ role @ ''|>'' @ [] @ ''\<newline>'' @ img_tag @ fmt text)))
       ''[gMASK]<sop>''"

text \<open>
  phi3 numbers its images: \<open>img_tok\<close> is the function \<^verbatim>\<open>img_tok.format\<close> of
  the counter \<open>n\<close>, which the loop carries with the images and the prompt.
\<close>

definition phi3_image_part ::
  "('b, 'i) libs \<Rightarrow> (nat \<Rightarrow> string) \<Rightarrow> Content \<Rightarrow> nat \<times> 'i list \<times> string
     \<Rightarrow> error + nat \<times> 'i list \<times> string" where
  "phi3_image_part env img_tok c = (\<lambda>(n, images, img_tag).
     if type c = Image_url then
       ebind (image_url_url c) (\<lambda>u.
       ebind (url_to_image env u) (\<lambda>img.
       Inr (n + 1, images @ [img], img_tag @ img_tok n)))
     else Inr (n, images, img_tag))"

definition phi3_message ::
  "('b, 'i) libs \<Rightarrow> (nat \<Rightarrow> string) \<Rightarrow> Message \<Rightarrow> nat \<times> 'i list \<times> string
     \<Rightarrow> error + nat \<times> 'i list \<times> string" where
  "phi3_message env img_tok m = (\<lambda>(n, images, prompt).
     ebind (for_content (phi3_image_part env img_tok) (content m) (n, images, []))
       (\<lambda>(n, images, img_tag).
     ebind (for_content
              (text_after_images
                 (\<lambda>text. Inr (''<|'' @ role m @ ''|>\<newline>'' @ img_tag @ fmt text @ ''<|end|>\<newline>'')))
              (content m) prompt)
       (\<lambda>prompt. Inr (n, images, prompt))))"

definition phi3_prompt_from_messages ::
  "('b, 'i) libs \<Rightarrow> (nat \<Rightarrow> string) \<Rightarrow> Message list \<Rightarrow> Message list \<times> (error + 'i list \<times> string)" where
  "phi3_prompt_from_messages env img_tok messages =
     (case trailing_assistant ''<|assistant|>\<newline>'' messages of
        (messages', Inl e) \<Rightarrow> (messages', Inl e)
      | (messages', Inr generation_msg) \<Rightarrow>
          (messages',
           ebind (for_each (phi3_message env img_tok) messages' (1, [], []))
             (\<lambda>(n, images, prompt). Inr (images, prompt @ generation_msg))))"

text \<open>
  florence keeps the last non-empty text as the whole prompt:
  \<^verbatim>\<open>
    if c.type == 'text' and c.text:
        prompt = c.text
  \<close>
\<close>

definition florence_text :: "Content \<Rightarrow> string \<Rightarrow> error + string" where
  "florence_text c prompt =
     Inr (if type c = Text \<and> c_text c \<noteq> None \<and> c_text c \<noteq> Some [] then the (c_text c)
          else prompt)"

definition florence_message ::
  "(string \<Rightarrow> error + 'i) \<Rightarrow> Message \<Rightarrow> 'i list \<times> string \<Rightarrow> error + 'i list \<times> string" where
  "florence_message url_handler m = (\<lambda>(images, prompt).
     ebind (for_content (image_part url_handler []) (content m) (images, []))
       (\<lambda>(images, unused).
     ebind (for_content florence_text (content m) prompt)
       (\<lambda>prompt. Inr (images, prompt))))"

definition florence_prompt_from_messages ::
  "(string \<Rightarrow> error + 'i) \<Rightarrow> Message list \<Rightarrow> Message list \<times> (error + 'i list \<times> string)" where
  "florence_prompt_from_messages url_handler =
     without_generation_msg (florence_message url_handler) ''<MORE_DETAILED_CAPTION>''"

text \<open>
  pixtral also takes a trailing user message off the list, after the assistant one:
  \<^verbatim>\<open>
    if messages and messages[-1].role == 'user':
        last_message = messages[-1].content[0].text
        messages.pop(-1)
  \<close>
\<close>

definition trailing_user :: "Message list \<Rightarrow> Message list \<times> (error + string option)" where
  "trailing_user messages =
     (if messages \<noteq> [] \<and> role (last messages) = ''user'' then
        (case content_0_text (content (last messages)) of
           Inl e \<Rightarrow> (messages, Inl e)
         | Inr last_message \<Rightarrow> (butlast messages, Inr last_message))
      else (messages, Inr (Some [])))"

text \<open>
  \<^verbatim>\<open>system_prompt += c.text\<close>, where \<^verbatim>\<open>system_prompt\<close> starts as None.
\<close>

definition pixtral_system :: "Content \<Rightarrow> string option \<Rightarrow> error + string option" where
  "pixtral_system c system_prompt =
     (if type c = Text then
        (case system_prompt of
           None \<Rightarrow> Inl TypeError
         | Some s \<Rightarrow> ebind (add_str s (c_text c)) (\<lambda>s'. Inr (Some s')))
      else Inr system_prompt)"

definition pixtral_message ::
  "('b, 'i) libs \<Rightarrow> string \<Rightarrow> Message \<Rightarrow> 'i list \<times> string \<times> string option
     \<Rightarrow> error + 'i list \<times> string \<times> string option" where
  "pixtral_message env img_tok m = (\<lambda>(images, prompt, system_prompt).
     if role m = ''user'' then
       ebind (for_content (image_and_text env img_tok) (content m) (images, [], Some []))
         (\<lambda>(images, img_tag, text).
            Inr (images, prompt @ ''[INST] '' @ fmt text @ img_tag @ '' [/INST]'', system_prompt))
     else if role m = ''assistant'' then
       ebind (for_content (text_part (\<lambda>text. '' '' @ text)) (content m) prompt)
         (\<lambda>prompt. Inr (images, prompt, system_prompt))
     else if role m = ''system'' then
       ebind (for_content pixtral_system (content m) system_prompt)
         (\<lambda>system_prompt. Inr (images, prompt, system_prompt))
     else Inr (images, prompt, system_prompt))"

text \<open>
  After the loop \<^verbatim>\<open>last_message\<close> is wrapped (a TypeError when it is None) and
  then dropped: only \<^verbatim>\<open>generation_msg\<close> is appended to the prompt.
\<close>

definition pixtral_prompt_from_messages ::
  "('b, 'i) libs \<Rightarrow> string \<Rightarrow> Message list \<Rightarrow> Message list \<times> (error + 'i list \<times> string)" where
  "pixtral_prompt_from_messages env img_tok messages =
     (case trailing_assistant [] messages of
        (messages, Inl e) \<Rightarrow> (messages, Inl e)
      | (messages, Inr generation_msg) \<Rightarrow>
     (case trailing_user messages of
        (messages, Inl e) \<Rightarrow> (messages, Inl e)
      | (messages, Inr last_message) \<Rightarrow>
          (messages,
           ebind (for_each (pixtral_message env img_tok) messages ([], ''<s>'', None))
             (\<lambda>(images, prompt, system_prompt).
           ebind (if system_prompt \<noteq> None \<and> system_prompt \<noteq> Some [] then
                    ebind (add_str (the system_prompt @ ''\<newline>\<newline>'') last_message)
                      (\<lambda>s. Inr (Some s))
                  else Inr last_message)
             (\<lambda>last_message.
           ebind (add_str ''[INST] '' last_message)
             (\<lambda>s. let last_message = s @ '' [/INST]'';
                      last_message = (if generation_msg \<noteq> [] then last_message @ generation_msg
                                      else last_message)
                  in Inr (images, prompt @ generation_msg)))))))"

text \<open>
  Two format functions are not in the registry; they return more than the images and
  the prompt. emu keeps the last system text apart:
  \<^verbatim>\<open>
    if c.type == 'text':
        system_message = c.text
  \<close>
\<close>

definition keep_text :: "Content \<Rightarrow> string option \<Rightarrow> error + string option" where
  "keep_text c system_message = Inr (if type c = Text then c_text c else system_message)"

definition emu_message ::
  "('b, 'i) libs \<Rightarrow> string \<Rightarrow> Message \<Rightarrow> 'i list \<times> string \<times> string option
     \<Rightarrow> error + 'i list \<times> string \<times> string option" where
  "emu_message env img_tok m = (\<lambda>(images, prompt, system_message).
     if role m = ''user'' then
       ebind (for_content (image_and_text env img_tok) (content m) (images, [], Some []))
         (\<lambda>(images, img_tag, text).
            Inr (images, prompt @ '' [USER]: '' @ img_tag @ fmt text, system_message))
     else if role m = ''assistant'' then
       ebind (for_content (text_part (\<lambda>text. '' [ASSISTANT]: '' @ text @ ''</s>'')) (content m) prompt)
         (\<lambda>prompt. Inr (images, prompt, system_message))
     else if role m = ''system'' then
       ebind (for_content keep_text (content m) system_message)
         (\<lambda>system_message. Inr (images, prompt, system_message))
     else Inr (images, prompt, system_message))"

definition emu_images_prompt_system_from_messages ::
  "('b, 'i) libs \<Rightarrow> string \<Rightarrow> Message list
     \<Rightarrow> Message list \<times> (error + 'i list \<times> string \<times> string option)" where
  "emu_images_prompt_system_from_messages env img_tok messages =
     (case trailing_assistant '' [ASSISTANT]:'' messages of
        (messages', Inl e) \<Rightarrow> (messages', Inl e)
      | (messages', Inr generation_msg) \<Rightarrow>
          (messages',
           ebind (for_each (emu_message env img_tok) messages' ([], [], None))
             (\<lambda>(images, prompt, system_message).
                Inr (images, prompt @ generation_msg, system_message))))"

text \<open>
  The other builds the history of a chat:
  \<^verbatim>\<open>
    if c.type == 'image_url':
        image = await url_handler(c.image_url.url)
        images.extend([image])
        p = img_tok + p
    if c.type == 'text':
        p += c.text
  \<close>
\<close>

definition history_image_text ::
  "(string \<Rightarrow> error + 'i) \<Rightarrow> string \<Rightarrow> Content \<Rightarrow> 'i list \<times> string \<Rightarrow> error + 'i list \<times> string" where
  "history_image_text url_handler img_tok c = (\<lambda>(images, p).
     ebind (if type c = Image_url then
              ebind (image_url_url c) (\<lambda>u.
              ebind (url_handler u) (\<lambda>image.
              Inr (images @ [image], img_tok @ p)))
            else Inr (images, p))
       (\<lambda>(images, p).
          if type c = Text then ebind (add_str p (c_text c)) (\<lambda>p. Inr (images, p))
          else Inr (images, p)))"

text \<open>
  \<^verbatim>\<open>
    if c.type == 'text':
        history.extend([(prompt, c.text)])
        prompt = ''
  \<close>
\<close>

definition history_pair ::
  "Content \<Rightarrow> (string \<times> string option) list \<times> string
     \<Rightarrow> error + (string \<times> string option) list \<times> string" where
  "history_pair c = (\<lambda>(history, prompt).
     Inr (if type c = Text then (history @ [(prompt, c_text c)], []) else (history, prompt)))"

definition history_message ::
  "(string \<Rightarrow> error + 'i) \<Rightarrow> string \<Rightarrow> Message
     \<Rightarrow> (string \<times> string option) list \<times> 'i list \<times> string \<times> string option
     \<Rightarrow> error + (string \<times> string option) list \<times> 'i list \<times> string \<times> string option" where
  "history_message url_handler img_tok m = (\<lambda>(history, images, prompt, system_prompt).
     if role m = ''user'' then
       ebind (for_content (history_image_text url_handler img_tok) (content m) (images, []))
         (\<lambda>(images, p). Inr (history, images, prompt @ p, system_prompt))
     else if role m = ''assistant'' then
       ebind (for_content history_pair (content m) (history, prompt))
         (\<lambda>(history, prompt). Inr (history, images, prompt, system_prompt))
     else if role m = ''system'' then
       ebind (for_content keep_text (content m) system_prompt)
         (\<lambda>system_prompt. Inr (history, images, prompt, system_prompt))
     else Inr (history, images, prompt, system_prompt))"

definition prompt_history_images_system_from_messages ::
  "(string \<Rightarrow> error + 'i) \<Rightarrow> string \<Rightarrow> Message list
     \<Rightarrow> Message list
        \<times> (error + string \<times> (string \<times> string option) list \<times> 'i list \<times> string option)" where
  "prompt_history_images_system_from_messages url_handler img_tok messages =
     (messages,
      ebind (for_each (history_message url_handler img_tok) messages ([], [], [], None))
        (\<lambda>(history, images, prompt, system_prompt).
           Inr (prompt, history, images, system_prompt)))"

section \<open>The registry and the dispatcher\<close>

text \<open>
  The dictionary \<^verbatim>\<open>known_formats\<close>, in the order of the source; each function is
  called with the defaults of its keyword parameters.
\<close>

definition known_formats ::
  "('b, 'i) libs \<Rightarrow> (string \<times> (Message list \<Rightarrow> Message list \<times> (error + 'i list \<times> string))) list" where
  "known_formats env =
     [(''chatml'', chatml_prompt_from_messages env ''<image>\<newline>''),
      (''falcon'', falcon_prompt_from_messages env ''<image>\<newline>''),
      (''florence'', florence_prompt_from_messages (url_to_image env)),
      (''fuyu'', fuyu_prompt_from_messages env [] []),
      (''gemma'', gemma_prompt_from_messages env ''<image>\<newline>''),
      (''glm4v'', glm4v_prompt_from_messages (url_to_image env)
                    ''<|begin_of_image|><|endoftext|><|end_of_image|>''),
      (''llama2'', llama2_prompt_from_messages env ''<image>\<newline>''),
      (''llama3'', llama3_prompt_from_messages env ''<image>''),
      (''mistral'', llama2_prompt_from_messages env ''<image>\<newline>''),
      (''phi15'', phi15_prompt_from_messages (url_to_image env) (\<lambda>img_data. ''<image>'') []),
      (''phi3'', phi3_prompt_from_messages env (\<lambda>n. ''<image>\<newline>'')),
      (''phintern'', phintern_prompt_from_messages env ''<image>\<newline>''),
      (''pixtral'', pixtral_prompt_from_messages env ''[IMG]''),
      (''vicuna'', vicuna_prompt_from_messages env ''<image>\<newline>''),
      (''vicuna0'', vicuna0_prompt_from_messages env ''<image_placeholder>\<newline>'')]"

definition prompt_from_messages ::
  "('b, 'i) libs \<Rightarrow> Message list \<Rightarrow> string \<Rightarrow> Message list \<times> (error + 'i list \<times> string)" where
  "prompt_from_messages env messages format =
     (if format \<notin> set (map fst (known_formats env)) then
        (messages, Inl (ValueError (''Unknown format: '' @ format)))
      else
        (case map_of (known_formats env) format of
           None \<Rightarrow> (messages, Inl KeyError)
         | Some f \<Rightarrow> f messages))"

text \<open>Libraries for the concrete runs: no network, data URIs decoded to their payload.\<close>

definition offline_libs :: "(string, string) libs" where
  "offline_libs =
     \<lparr>requests_get = (\<lambda>u. Inl (OtherError ''offline'')),
      datauri_data = (\<lambda>u. Inr (drop 5 u)),
      image_open = (\<lambda>d. if d = [] then Inl (OtherError ''empty'') else Inr d)\<rparr>"

section \<open>Message normalization\<close>

text \<open>
  \<^verbatim>\<open>ImageChatRequest\<close>: the two required fields; the optional fields of the class
  are the extension of the record.
\<close>

record ImageChatRequest =
  messages :: "Message list"
  model :: string

text \<open>
  \<^verbatim>\<open>
    if isinstance(m.content, str):
        m.content = [ Content(type='text', text=m.content) ]
  \<close>
\<close>

definition repack_message :: "Message \<Rightarrow> Message" where
  "repack_message m =
     (case content m of
        Str s \<Rightarrow> m\<lparr>content := Parts [\<lparr>type = Text, c_text = Some s, image_url = None\<rparr>]\<rparr>
      | Parts cs \<Rightarrow> m)"

definition repack_message_content :: "'a ImageChatRequest_scheme \<Rightarrow> 'a ImageChatRequest_scheme" where
  "repack_message_content request = request\<lparr>messages := map repack_message (messages request)\<rparr>"

section \<open>The qwen2_5_vl backend\<close>

text \<open>
  The dictionaries handed to the chat template: \<open>Image_dict u\<close> is
  \<^verbatim>\<open>{'type': 'image_url', 'image': u}\<close> and \<open>Text_dict t\<close> is
  \<^verbatim>\<open>{'type': 'text', 'text': t}\<close>.
\<close>

datatype part_dict = Image_dict string | Text_dict "string option"

record message_dict =
  d_role :: string
  d_content :: "part_dict list"

text \<open>
  The user branch; the \<^verbatim>\<open>video\<close> test cannot succeed on a \<^verbatim>\<open>Content\<close>, whose
  type is one of the two literals.
\<close>

definition user_part :: "Content \<Rightarrow> part_dict list \<Rightarrow> error + part_dict list" where
  "user_part c msg_content =
     (if type c = Image_url then
        ebind (image_url_url c) (\<lambda>u. Inr (msg_content @ [Image_dict u]))
      else if type c = Text then Inr (msg_content @ [Text_dict (c_text c)])
      else Inr msg_content)"

text \<open>\<^verbatim>\<open>[c.text for c in m.content]\<close>\<close>

fun content_texts :: "content \<Rightarrow> error + string option list" where
  "content_texts (Parts cs) = Inr (map c_text cs)"
| "content_texts (Str str) = (if str = [] then Inr [] else Inl AttributeError)"

text \<open>\<^verbatim>\<open>"".join(texts)\<close>: a TypeError when an item is None.\<close>

fun join :: "string option list \<Rightarrow> error + string" where
  "join [] = Inr []"
| "join (None # ts) = Inl TypeError"
| "join (Some t # ts) = ebind (join ts) (\<lambda>s. Inr (t @ s))"

definition qwen_message :: "Message \<Rightarrow> error + message_dict" where
  "qwen_message m =
     (if role m = ''user'' then
        ebind (for_content user_part (content m) [])
          (\<lambda>msg_content. Inr \<lparr>d_role = role m, d_content = msg_content\<rparr>)
      else
        ebind (content_texts (content m)) (\<lambda>texts.
        ebind (join texts) (\<lambda>ctext.
        Inr \<lparr>d_role = role m, d_content = [Text_dict (Some ctext)]\<rparr>)))"

definition qwen_messages :: "Message list \<Rightarrow> error + message_dict list" where
  "qwen_messages ms =
     for_each (\<lambda>m msgs. ebind (qwen_message m) (\<lambda>msg. Inr (msgs @ [msg]))) ms []"

section \<open>Streaming\<close>

text \<open>What the consumer of a generator sees, in order.\<close>

datatype 'e observation = Yield string | Raise 'e

text \<open>\<^verbatim>\<open>s.find(sub)\<close>: the lowest index at which \<open>sub\<close> starts in \<open>s\<close>, or -1.\<close>

fun str_find :: "string \<Rightarrow> string \<Rightarrow> int" where
  "str_find [] sub = (if sub = [] then 0 else - 1)"
| "str_find (ch # s) sub =
     (if startswith (ch # s) sub then 0
      else (let i = str_find s sub in if i = - 1 then - 1 else i + 1))"

text \<open>
  The loop of \<^verbatim>\<open>stream_chat_with_images\<close> over what the generator delivers:
  \<^verbatim>\<open>
    for new_text in threaded_streaming_generator(...):
        end = new_text.find(self.processor.tokenizer.eos_token)
        if end == -1:
            yield new_text
        else:
            yield new_text[:end]
            break
  \<close>
  An exception of the generator passes through, unless the loop has left before.
\<close>

fun stream_chat_loop :: "string \<Rightarrow> 'e observation list \<Rightarrow> 'e observation list" where
  "stream_chat_loop eos_token [] = []"
| "stream_chat_loop eos_token (Raise e # rest) = [Raise e]"
| "stream_chat_loop eos_token (Yield new_text # rest) =
     (let end_pos = str_find new_text eos_token
      in if end_pos = - 1 then Yield new_text # stream_chat_loop eos_token rest
         else [Yield (take (nat end_pos) new_text)])"

text \<open>
  \<^verbatim>\<open>threaded_streaming_generator\<close> runs \<^verbatim>\<open>generate\<close> on a worker thread and reads
  the streamer on the caller's. The streamer is a FIFO queue of texts closed by a stop
  signal; \<^verbatim>\<open>exq\<close> is the queue of caught exceptions.

  The worker: \<^verbatim>\<open>generate\<close> puts its texts one by one and then either returns, having
  ended the streamer itself, or raises; the wrapper catches what it raises, puts it on
  \<^verbatim>\<open>exq\<close> and only then ends the streamer.
\<close>

datatype item = Text_item string | Stop

datatype 'e worker =
    Generating "string list" "'e option"
  | Ending
  | Finished

text \<open>
  The consumer: in the \<^verbatim>\<open>for text in streamer\<close> loop, then at the test of
  \<^verbatim>\<open>exq\<close>, then done.
\<close>

datatype consumer = Iterating | Checking | Done

record 'e threads =
  worker :: "'e worker"
  streamer :: "item list"
  exq :: "'e list"
  consumer :: consumer
  observed :: "'e observation list"

definition start :: "string list \<Rightarrow> 'e option \<Rightarrow> 'e threads" where
  "start texts outcome =
     \<lparr>worker = Generating texts outcome, streamer = [], exq = [], consumer = Iterating,
      observed = []\<rparr>"

fun worker_step :: "'e threads \<Rightarrow> 'e threads" where
  "worker_step s =
     (case worker s of
        Generating (text # texts) outcome \<Rightarrow>
          s\<lparr>worker := Generating texts outcome, streamer := streamer s @ [Text_item text]\<rparr>
      | Generating [] None \<Rightarrow> s\<lparr>worker := Finished, streamer := streamer s @ [Stop]\<rparr>
      | Generating [] (Some e) \<Rightarrow> s\<lparr>worker := Ending, exq := exq s @ [e]\<rparr>
      | Ending \<Rightarrow> s\<lparr>worker := Finished, streamer := streamer s @ [Stop]\<rparr>
      | Finished \<Rightarrow> s)"

text \<open>
  \<^verbatim>\<open>
    for text in streamer:
        if text:
            yield text

    if not exq.empty():
        raise exq.get_nowait()
  \<close>
  On an empty streamer the consumer waits (the ten minutes after which the wait is
  given up are outside the model).
\<close>

fun consumer_step :: "'e threads \<Rightarrow> 'e threads" where
  "consumer_step s =
     (case consumer s of
        Iterating \<Rightarrow>
          (case streamer s of
             [] \<Rightarrow> s
           | Text_item text # items \<Rightarrow>
               s\<lparr>streamer := items,
                 observed := (if text \<noteq> [] then observed s @ [Yield text] else observed s)\<rparr>
           | Stop # items \<Rightarrow> s\<lparr>streamer := items, consumer := Checking\<rparr>)
      | Checking \<Rightarrow>
          (case exq s of
             [] \<Rightarrow> s\<lparr>consumer := Done\<rparr>
           | e # es \<Rightarrow> s\<lparr>exq := es, consumer := Done, observed := observed s @ [Raise e]\<rparr>)
      | Done \<Rightarrow> s)"

text \<open>A schedule says which thread moves next; \<open>run\<close> follows it.\<close>

datatype thread = Worker | Consumer

fun run :: "thread list \<Rightarrow> 'e threads \<Rightarrow> 'e threads" where
  "run [] s = s"
| "run (Worker # schedule) s = run schedule (worker_step s)"
| "run (Consumer # schedule) s = run schedule (consumer_step s)"

text \<open>
  What the loop of \<^verbatim>\<open>threaded_streaming_generator\<close> yields for the texts it reads:
  the non-empty ones, in order.
\<close>

definition yielded :: "string list \<Rightarrow> 'e observation list" where
  "yielded texts = map Yield (filter (\<lambda>text. text \<noteq> []) texts)"

text \<open>The texts waiting in the streamer.\<close>

fun item_texts :: "item list \<Rightarrow> string list" where
  "item_texts [] = []"
| "item_texts (Text_item t # q) = t # item_texts q"
| "item_texts (Stop # q) = item_texts q"

text \<open>
  The invariant of the two threads when \<^verbatim>\<open>generate\<close> puts \<open>texts\<close> and then raises
  \<open>e\<close>: what has been observed, what waits in the streamer and what is still to be put
  make up the texts; the stop signal is put after the exception is on \<^verbatim>\<open>exq\<close>.
\<close>

definition drains :: "string list \<Rightarrow> 'e \<Rightarrow> 'e threads \<Rightarrow> bool" where
  "drains texts e s =
     (case worker s of
        Generating rest outcome \<Rightarrow>
          outcome = Some e \<and> exq s = [] \<and> consumer s = Iterating \<and> Stop \<notin> set (streamer s)
          \<and> observed s @ yielded (item_texts (streamer s)) @ yielded rest = yielded texts
      | Ending \<Rightarrow>
          exq s = [e] \<and> consumer s = Iterating \<and> Stop \<notin> set (streamer s)
          \<and> observed s @ yielded (item_texts (streamer s)) = yielded texts
      | Finished \<Rightarrow>
          (case consumer s of
             Iterating \<Rightarrow>
               exq s = [e] \<and> streamer s \<noteq> [] \<and> last (streamer s) = Stop
               \<and> Stop \<notin> set (butlast (streamer s))
               \<and> observed s @ yielded (item_texts (streamer s)) = yielded texts
           | Checking \<Rightarrow> exq s = [e] \<and> observed s = yielded texts
           | Done \<Rightarrow> observed s = yielded texts @ [Raise e]))"

section \<open>Notions used in the statements\<close>

text \<open>
  The list a format function walks when it starts by taking the trailing assistant
  message off.
\<close>

definition remaining :: "Message list \<Rightarrow> Message list" where
  "remaining ms = (if ms \<noteq> [] \<and> role (last ms) = ''assistant'' then butlast ms else ms)"

text \<open>The image_url parts of a message, in order.\<close>

definition image_url_parts :: "Message \<Rightarrow> Content list" where
  "image_url_parts m =
     (case content m of Parts cs \<Rightarrow> filter (\<lambda>c. type c = Image_url) cs | Str s \<Rightarrow> [])"

text \<open>The text parts of a message, in order.\<close>

definition text_parts :: "Message \<Rightarrow> Content list" where
  "text_parts m = (case content m of Parts cs \<Rightarrow> filter (\<lambda>c. type c = Text) cs | Str s \<Rightarrow> [])"

text \<open>
  The text a user turn is left with: that of its last text part, the empty string when
  it has none.
\<close>

definition last_text :: "Message \<Rightarrow> string option" where
  "last_text m = (if text_parts m = [] then Some [] else c_text (last (text_parts m)))"

text \<open>
  What one message contributes to a chatml prompt: a user message one block, with one
  image token per image_url part in front of its text; a system or assistant message
  one block per text part; a message of another role nothing.
\<close>

definition chatml_blocks :: "string \<Rightarrow> Message \<Rightarrow> string" where
  "chatml_blocks img_tok m =
     (if role m = ''user'' then
        ''<|im_start|>user\<newline>'' @ concat (map (\<lambda>c. img_tok) (image_url_parts m))
          @ fmt (last_text m) @ ''<|im_end|>''
      else if role m = ''assistant'' \<or> role m = ''system'' then
        concat (map (\<lambda>c. ''<|im_start|>'' @ role m @ ''\<newline>'' @ fmt (c_text c) @ ''<|im_end|>'')
                  (text_parts m))
      else [])"

text \<open>
  A message that chatml walks without raising: its content is a list of parts and,
  in a user message, the image of every image_url part loads.
\<close>

definition walkable :: "('b, 'i) libs \<Rightarrow> Message \<Rightarrow> bool" where
  "walkable env m \<longleftrightarrow>
     (case content m of
        Str str \<Rightarrow> False
      | Parts cs \<Rightarrow>
          role m = ''user'' \<longrightarrow>
          (\<forall>c \<in> set (image_url_parts m).
             \<not> isl (ebind (image_url_url c) (url_to_image env))))"

text \<open>\<open>img\<close> is the image that the handler loads from the URL of the part \<open>c\<close>.\<close>

definition loads :: "(string \<Rightarrow> error + 'i) \<Rightarrow> 'i \<Rightarrow> Content \<Rightarrow> bool" where
  "loads url_handler img c = (ebind (image_url_url c) url_handler = Inr img)"

text \<open>
  The two functions outside the registry, seen as the others are: the images and the
  prompt of what they return.
\<close>

definition emu_images_prompt ::
  "('b, 'i) libs \<Rightarrow> string \<Rightarrow> Message list \<Rightarrow> Message list \<times> (error + 'i list \<times> string)" where
  "emu_images_prompt env img_tok ms =
     (fst (emu_images_prompt_system_from_messages env img_tok ms),
      ebind (snd (emu_images_prompt_system_from_messages env img_tok ms))
        (\<lambda>(images, prompt, system_message). Inr (images, prompt)))"

definition history_images_prompt ::
  "(string \<Rightarrow> error + 'i) \<Rightarrow> string \<Rightarrow> Message list
     \<Rightarrow> Message list \<times> (error + 'i list \<times> string)" where
  "history_images_prompt url_handler img_tok ms =
     (fst (prompt_history_images_system_from_messages url_handler img_tok ms),
      ebind (snd (prompt_history_images_system_from_messages url_handler img_tok ms))
        (\<lambda>(prompt, history, images, system_prompt). Inr (images, prompt)))"

text \<open>
  The functions that load the images of the user messages only (the registered ones
  and the two outside the registry), each with whether it starts by taking the
  trailing assistant message off; and those that load the images of every message.
\<close>

definition user_image_formats ::
  "('b, 'i) libs \<Rightarrow> ((Message list \<Rightarrow> Message list \<times> (error + 'i list \<times> string)) \<times> bool) list" where
  "user_image_formats env =
     [(chatml_prompt_from_messages env ''<image>\<newline>'', True),
      (falcon_prompt_from_messages env ''<image>\<newline>'', True),
      (fuyu_prompt_from_messages env [] [], False),
      (gemma_prompt_from_messages env ''<image>\<newline>'', True),
      (llama2_prompt_from_messages env ''<image>\<newline>'', False),
      (phi15_prompt_from_messages (url_to_image env) (\<lambda>img_data. ''<image>'') [], True),
      (phintern_prompt_from_messages env ''<image>\<newline>'', True),
      (vicuna_prompt_from_messages env ''<image>\<newline>'', True),
      (vicuna0_prompt_from_messages env ''<image_placeholder>\<newline>'', True),
      (emu_images_prompt env ''[<IMG_PLH>]'', True),
      (history_images_prompt (url_to_image env) ''<image>\<newline>'', False)]"

definition every_image_formats ::
  "('b, 'i) libs \<Rightarrow> ((Message list \<Rightarrow> Message list \<times> (error + 'i list \<times> string)) \<times> bool) list" where
  "every_image_formats env =
     [(florence_prompt_from_messages (url_to_image env), False),
      (glm4v_prompt_from_messages (url_to_image env)
         ''<|begin_of_image|><|endoftext|><|end_of_image|>'', True),
      (llama3_prompt_from_messages env ''<image>'', True),
      (phi3_prompt_from_messages env (\<lambda>n. ''<image>\<newline>''), True)]"

text \<open>
  The functions that start by taking the trailing assistant message off and nothing
  else (the registered ones and emu), each with the string its
  \<^verbatim>\<open>generation_msg\<close> starts from (pixtral, which goes on to take a trailing user
  message off, starts from the empty string).
\<close>

definition extracting_formats ::
  "('b, 'i) libs \<Rightarrow> (string \<times> (Message list \<Rightarrow> Message list \<times> (error + 'i list \<times> string))) list" where
  "extracting_formats env =
     [(''<|im_start|>assistant\<newline>'', chatml_prompt_from_messages env ''<image>\<newline>''),
      (''Falcon:'', falcon_prompt_from_messages env ''<image>\<newline>''),
      (''<start_of_turn>model\<newline>'', gemma_prompt_from_messages env ''<image>\<newline>''),
      (''<|assistant|>\<newline>'', glm4v_prompt_from_messages (url_to_image env)
         ''<|begin_of_image|><|endoftext|><|end_of_image|>''),
      (''<|start_header_id|>assistant<|end_header_id|>\<newline>\<newline>'',
         llama3_prompt_from_messages env ''<image>''),
      (''Answer:'', phi15_prompt_from_messages (url_to_image env) (\<lambda>img_data. ''<image>'') []),
      (''<|assistant|>\<newline>'', phi3_prompt_from_messages env (\<lambda>n. ''<image>\<newline>'')),
      (''<s><|assistant|>\<newline>'', phintern_prompt_from_messages env ''<image>\<newline>''),
      (''ASSISTANT:'', vicuna_prompt_from_messages env ''<image>\<newline>''),
      (''### Assistant:'', vicuna0_prompt_from_messages env ''<image_placeholder>\<newline>''),
      ('' [ASSISTANT]:'', emu_images_prompt env ''[<IMG_PLH>]'')]"

text \<open>
  A function continues from \<open>g\<close> when it behaves as the opening says: it fails as the
  opening fails, leaving the list alone, and otherwise leaves the list the opening
  leaves and ends its prompt with the marker the opening built.
\<close>

definition continues :: "string \<Rightarrow> (Message list \<Rightarrow> Message list \<times> (error + 'i list \<times> string)) \<Rightarrow> bool" where
  "continues g f \<longleftrightarrow>
     (\<forall>ms. case trailing_assistant g ms of
             (ms', Inl e) \<Rightarrow> f ms = (ms', Inl e)
           | (ms', Inr g') \<Rightarrow>
               fst (f ms) = ms'
               \<and> (\<forall>images prompt. snd (f ms) = Inr (images, prompt) \<longrightarrow> suffix g' prompt))"

section \<open>Inputs of the concrete runs\<close>

text \<open>Message lists for the concrete runs.\<close>

definition assistant_image :: "Message list" where
  "assistant_image =
     [\<lparr>role = ''assistant'',
        content = Parts [\<lparr>type = Image_url, c_text = None,
                           image_url = Some \<lparr>url = ''data:image/png;base64,iVBORw0KGgo='',
                                             detail = Some ''auto''\<rparr>\<rparr>],
        name = None\<rparr>]"

definition assistant_empty :: "Message list" where
  "assistant_empty = [\<lparr>role = ''assistant'', content = Parts [], name = None\<rparr>]"

definition hi_partial :: "Message list" where
  "hi_partial =
     [\<lparr>role = ''user'',
        content = Parts [\<lparr>type = Text, c_text = Some ''hi'', image_url = None\<rparr>],
        name = None\<rparr>,
      \<lparr>role = ''assistant'',
        content = Parts [\<lparr>type = Text, c_text = Some ''partial'', image_url = None\<rparr>],
        name = None\<rparr>]"

definition image_with_text :: "Message list" where
  "image_with_text =
     [\<lparr>role = ''assistant'',
        content = Parts [\<lparr>type = Image_url, c_text = Some ''partial'',
                           image_url = Some \<lparr>url = ''data:image/png;base64,iVBORw0KGgo='',
                                             detail = Some ''auto''\<rparr>\<rparr>],
        name = None\<rparr>]"

definition system_image :: "Message list" where
  "system_image =
     [\<lparr>role = ''system'',
        content = Parts [\<lparr>type = Image_url, c_text = None,
                           image_url = Some \<lparr>url = ''data:image/png;base64,iVBORw0KGgo='',
                                             detail = Some ''auto''\<rparr>\<rparr>],
        name = None\<rparr>,
      \<lparr>role = ''user'',
        content = Parts [\<lparr>type = Text, c_text = Some ''What is this?'', image_url = None\<rparr>],
        name = None\<rparr>]"

definition user_image :: "Message list" where
  "user_image =
     [\<lparr>role = ''user'',
        content = Parts [\<lparr>type = Image_url, c_text = None,
                           image_url = Some \<lparr>url = ''data:image/png;base64,iVBORw0KGgo='',
                                             detail = Some ''auto''\<rparr>\<rparr>,
                         \<lparr>type = Text, c_text = Some ''What is this?'', image_url = None\<rparr>],
        name = None\<rparr>,
      \<lparr>role = ''assistant'',
        content = Parts [\<lparr>type = Text, c_text = Some ''It is'', image_url = None\<rparr>],
        name = None\<rparr>]"

definition two_system_parts :: Message where
  "two_system_parts =
     \<lparr>role = ''system'',
       content = Parts [\<lparr>type = Text, c_text = Some ''Be terse.'', image_url = None\<rparr>,
                        \<lparr>type = Text, c_text = Some ''Be kind.'', image_url = None\<rparr>],
       name = None\<rparr>"

definition text_text_image :: Message where
  "text_text_image =
     \<lparr>role = ''system'',
       content = Parts [\<lparr>type = Text, c_text = Some ''Be terse.'', image_url = None\<rparr>,
                        \<lparr>type = Text, c_text = Some ''Be kind.'', image_url = None\<rparr>,
                        \<lparr>type = Image_url, c_text = None,
                           image_url = Some \<lparr>url = ''data:image/png;base64,iVBORw0KGgo='',
                                             detail = Some ''auto''\<rparr>\<rparr>],
       name = None\<rparr>"

definition terse_chat :: "Message list" where
  "terse_chat = two_system_parts # user_image"

text \<open>A request for the concrete runs: a bare string and a list of parts.\<close>

definition example_request :: ImageChatRequest where
  "example_request =
     \<lparr>messages =
        [\<lparr>role = ''system'', content = Str ''Be terse.'', name = None\<rparr>,
         \<lparr>role = ''user'',
           content = Parts [\<lparr>type = Text, c_text = Some ''hi'', image_url = None\<rparr>],
           name = Some ''ann''\<rparr>],
      model = ''qwen''\<rparr>"

section \<open>The chatml example\<close>

text \<open>
  C1. The chatml function, with its default image token, on the two messages
  system \<open>[Text "Be terse."]\<close> and user \<open>[image_url u, Text "What is this?"]\<close>, where
  \<open>u\<close> decodes to the image \<open>img\<close>: the images returned are exactly \<open>[img]\<close>, and
  the prompt starts with the system and user blocks and ends with the opening of the
  assistant turn (it is the one followed by the other).
\<close>

theorem chatml_example:
  "url_to_image env u = Inr img \<Longrightarrow>
   (\<exists>prompt.
      snd (chatml_prompt_from_messages env ''<image>\<newline>''
             [\<lparr>role = ''system'',
                content = Parts [\<lparr>type = Text, c_text = Some ''Be terse.'', image_url = None\<rparr>],
                name = n1\<rparr>,
              \<lparr>role = ''user'',
                content = Parts [\<lparr>type = Image_url, c_text = None,
                                   image_url = Some \<lparr>url = u, detail = d\<rparr>\<rparr>,
                                 \<lparr>type = Text, c_text = Some ''What is this?'', image_url = None\<rparr>],
                name = n2\<rparr>])
        = Inr ([img], prompt)
      \<and> startswith prompt
            ''<|im_start|>system\<newline>Be terse.<|im_end|><|im_start|>user\<newline><image>\<newline>What is this?<|im_end|>''
      \<and> suffix ''<|im_start|>assistant\<newline>'' prompt
      \<and> prompt =
            ''<|im_start|>system\<newline>Be terse.<|im_end|><|im_start|>user\<newline><image>\<newline>What is this?<|im_end|>''
            @ ''<|im_start|>assistant\<newline>'')"
  by (simp add: chatml_prompt_from_messages_def with_generation_msg_def trailing_assistant_def
        role_message_def image_and_text_def text_part_def fmt_def image_url_url_def
        startswith_def suffix_def)

theorem chatml_example_witness:
  "url_to_image offline_libs ''data:image/png;base64,iVBORw0KGgo='' = Inr ''image/png;base64,iVBORw0KGgo=''
   \<and> (\<exists>prompt.
      snd (chatml_prompt_from_messages offline_libs ''<image>\<newline>''
             [\<lparr>role = ''system'',
                content = Parts [\<lparr>type = Text, c_text = Some ''Be terse.'', image_url = None\<rparr>],
                name = None\<rparr>,
              \<lparr>role = ''user'',
                content = Parts [\<lparr>type = Image_url, c_text = None,
                                   image_url = Some \<lparr>url = ''data:image/png;base64,iVBORw0KGgo='',
                                                     detail = Some ''auto''\<rparr>\<rparr>,
                                 \<lparr>type = Text, c_text = Some ''What is this?'', image_url = None\<rparr>],
                name = None\<rparr>])
        = Inr ([''image/png;base64,iVBORw0KGgo=''], prompt)
      \<and> startswith prompt
            ''<|im_start|>system\<newline>Be terse.<|im_end|><|im_start|>user\<newline><image>\<newline>What is this?<|im_end|>''
      \<and> suffix ''<|im_start|>assistant\<newline>'' prompt)"
proof -
  have load: "url_to_image offline_libs ''data:image/png;base64,iVBORw0KGgo=''
                = Inr ''image/png;base64,iVBORw0KGgo=''"
    by (simp add: url_to_image_def offline_libs_def startswith_def)
  from chatml_example [OF load, of None "Some ''auto''" None] load show ?thesis
    by blast
qed

section \<open>Dispatch\<close>

lemma known_formats_distinct: "distinct (map fst (known_formats env))"
  by (simp add: known_formats_def)

text \<open>
  C4. For a format name that is not a key of the registry, \<^verbatim>\<open>prompt_from_messages\<close>
  raises a ValueError whose message is \<^verbatim>\<open>Unknown format: \<close> followed by that very name,
  and leaves the messages alone; for a name that is a key, it is the call of the
  function registered under it.
\<close>

theorem prompt_from_messages_dispatch:
  "(format \<notin> fst ` set (known_formats env) \<longrightarrow>
      prompt_from_messages env ms format
        = (ms, Inl (ValueError (''Unknown format: '' @ format))))
   \<and> (\<forall>f. (format, f) \<in> set (known_formats env) \<longrightarrow>
          prompt_from_messages env ms format = f ms)"
proof (intro conjI impI allI)
  assume "format \<notin> fst ` set (known_formats env)"
  then show "prompt_from_messages env ms format
               = (ms, Inl (ValueError (''Unknown format: '' @ format)))"
    by (simp add: prompt_from_messages_def)
next
  fix f
  assume mem: "(format, f) \<in> set (known_formats env)"
  have "map_of (known_formats env) format = Some f"
    by (rule map_of_is_SomeI [OF known_formats_distinct mem])
  moreover from mem have "format \<in> fst ` set (known_formats env)"
    by force
  ultimately show "prompt_from_messages env ms format = f ms"
    by (simp add: prompt_from_messages_def)
qed

theorem prompt_from_messages_dispatch_witness:
  "''not-a-format'' \<notin> fst ` set (known_formats offline_libs)
   \<and> prompt_from_messages offline_libs [] ''not-a-format''
       = ([], Inl (ValueError ''Unknown format: not-a-format''))
   \<and> (''chatml'', chatml_prompt_from_messages offline_libs ''<image>\<newline>'')
       \<in> set (known_formats offline_libs)
   \<and> prompt_from_messages offline_libs [] ''chatml''
       = chatml_prompt_from_messages offline_libs ''<image>\<newline>'' []"
proof -
  have absent: "''not-a-format'' \<notin> fst ` set (known_formats offline_libs)"
    by (simp add: known_formats_def)
  have present: "(''chatml'', chatml_prompt_from_messages offline_libs ''<image>\<newline>'')
                   \<in> set (known_formats offline_libs)"
    by (simp add: known_formats_def)
  from prompt_from_messages_dispatch [of "''not-a-format''" offline_libs "[]"] absent
  have "prompt_from_messages offline_libs [] ''not-a-format''
          = ([], Inl (ValueError ''Unknown format: not-a-format''))"
    by simp
  moreover from prompt_from_messages_dispatch [of "''chatml''" offline_libs "[]"] present
  have "prompt_from_messages offline_libs [] ''chatml''
          = chatml_prompt_from_messages offline_libs ''<image>\<newline>'' []"
    by blast
  ultimately show ?thesis using absent present by blast
qed

section \<open>Message normalization is a per-message rewrite\<close>

lemma repack_message_idem: "repack_message (repack_message m) = repack_message m"
  by (cases "content m") (simp_all add: repack_message_def)

text \<open>
  C7. \<^verbatim>\<open>repack_message_content\<close> keeps the number and the order of the messages;
  at every position the role and the name are those of the original message, a bare
  string \<open>s\<close> has become the one-element list \<open>[Text s]\<close>, and a message whose content
  was a list already is unchanged; the other fields of the request are unchanged; and
  a second application changes nothing.
\<close>

theorem repack_message_content_normalizes:
  "length (messages (repack_message_content request)) = length (messages request)
   \<and> (\<forall>i < length (messages request).
        role (messages (repack_message_content request) ! i) = role (messages request ! i)
      \<and> name (messages (repack_message_content request) ! i) = name (messages request ! i)
      \<and> (\<forall>s. content (messages request ! i) = Str s \<longrightarrow>
             content (messages (repack_message_content request) ! i)
               = Parts [\<lparr>type = Text, c_text = Some s, image_url = None\<rparr>])
      \<and> (\<forall>cs. content (messages request ! i) = Parts cs \<longrightarrow>
             messages (repack_message_content request) ! i = messages request ! i))
   \<and> model (repack_message_content request) = model request
   \<and> ImageChatRequest.more (repack_message_content request) = ImageChatRequest.more request
   \<and> repack_message_content (repack_message_content request) = repack_message_content request"
  by (simp add: repack_message_content_def repack_message_idem)
     (simp add: repack_message_def split: content.split)

theorem repack_message_content_normalizes_witness:
  "0 < length (messages example_request)
   \<and> content (messages example_request ! 0) = Str ''Be terse.''
   \<and> content (messages (repack_message_content example_request) ! 0)
       = Parts [\<lparr>type = Text, c_text = Some ''Be terse.'', image_url = None\<rparr>]
   \<and> role (messages (repack_message_content example_request) ! 0) = ''system''
   \<and> 1 < length (messages example_request)
   \<and> content (messages example_request ! 1)
       = Parts [\<lparr>type = Text, c_text = Some ''hi'', image_url = None\<rparr>]
   \<and> messages (repack_message_content example_request) ! 1 = messages example_request ! 1
   \<and> repack_message_content (repack_message_content example_request)
       = repack_message_content example_request"
proof -
  have zero: "0 < length (messages example_request)"
    and one: "1 < length (messages example_request)"
    and str: "content (messages example_request ! 0) = Str ''Be terse.''"
    and parts: "content (messages example_request ! 1)
                  = Parts [\<lparr>type = Text, c_text = Some ''hi'', image_url = None\<rparr>]"
    and sys: "role (messages example_request ! 0) = ''system''"
    by (simp_all add: example_request_def)
  note all = repack_message_content_normalizes [of example_request]
  from all zero str
  have "content (messages (repack_message_content example_request) ! 0)
          = Parts [\<lparr>type = Text, c_text = Some ''Be terse.'', image_url = None\<rparr>]"
    by blast
  moreover from all zero sys
  have "role (messages (repack_message_content example_request) ! 0) = ''system''"
    by metis
  moreover from all one parts
  have "messages (repack_message_content example_request) ! 1 = messages example_request ! 1"
    by blast
  moreover from all
  have "repack_message_content (repack_message_content example_request)
          = repack_message_content example_request"
    by blast
  ultimately show ?thesis using zero one str parts by blast
qed

section \<open>Truncation at the end-of-sequence marker\<close>

lemma startswith_prefix: "startswith s p \<longleftrightarrow> prefix p s"
  by (auto simp: startswith_def prefix_def) (metis append_eq_conv_conj)

lemma str_find_ge: "- 1 \<le> str_find s sub"
  by (induction s) (auto simp: Let_def)

lemma str_find_absent: "str_find s sub = - 1 \<longleftrightarrow> \<not> sublist sub s"
proof (induction s)
  case Nil
  then show ?case by simp
next
  case (Cons ch s)
  have "- 1 \<le> str_find s sub" by (rule str_find_ge)
  then have "str_find s sub + 1 \<noteq> - 1" by simp
  then show ?case using Cons
    by (simp add: Let_def sublist_Cons_right startswith_prefix)
qed

lemma str_find_split:
  "str_find s sub \<noteq> - 1 \<Longrightarrow> \<exists>rest. s = take (nat (str_find s sub)) s @ sub @ rest"
proof (induction s)
  case Nil
  then show ?case by (simp split: if_splits)
next
  case (Cons ch s)
  show ?case
  proof (cases "startswith (ch # s) sub")
    case True
    then show ?thesis by (simp add: startswith_prefix prefix_def)
  next
    case False
    with Cons.prems have found: "str_find s sub \<noteq> - 1"
      by (auto simp: Let_def split: if_splits)
    have "- 1 \<le> str_find s sub" by (rule str_find_ge)
    with found have pos: "0 \<le> str_find s sub" by simp
    from Cons.IH [OF found] obtain rest where "s = take (nat (str_find s sub)) s @ sub @ rest" ..
    moreover from pos have "nat (str_find s sub + 1) = Suc (nat (str_find s sub))" by simp
    ultimately show ?thesis using False found
      by (auto simp: Let_def)
  qed
qed

lemma str_find_first: "s = a @ sub @ b \<Longrightarrow> nat (str_find s sub) \<le> length a"
proof (induction s arbitrary: a)
  case Nil
  then show ?case by simp
next
  case (Cons ch s)
  show ?case
  proof (cases "startswith (ch # s) sub")
    case True
    then show ?thesis by simp
  next
    case False
    with Cons.prems obtain a' where a: "a = ch # a'" and s: "s = a' @ sub @ b"
      by (cases a) (auto simp: startswith_prefix)
    from Cons.IH [OF s] have "nat (str_find s sub) \<le> length a'" .
    moreover have "- 1 \<le> str_find s sub" by (rule str_find_ge)
    ultimately show ?thesis using False a
      by (auto simp: Let_def)
  qed
qed

lemma stream_chat_loop_yields:
  "stream_chat_loop eos_token (map Yield fragments @ rest)
     = map Yield (takeWhile (\<lambda>t. \<not> sublist eos_token t) fragments)
       @ (case dropWhile (\<lambda>t. \<not> sublist eos_token t) fragments of
            [] \<Rightarrow> stream_chat_loop eos_token rest
          | t # ignored \<Rightarrow> [Yield (take (nat (str_find t eos_token)) t)])"
  by (induction fragments) (auto simp: Let_def str_find_absent)

text \<open>
  C6. Over the fragments that the generator delivers, the loop of
  \<^verbatim>\<open>stream_chat_with_images\<close> yields the fragments before the first one that
  contains the marker as they are, then the part of that one in front of the marker,
  and nothing of what follows. The part in front is \<open>take (find t eos) t\<close>: the
  marker follows it in \<open>t\<close>, and no occurrence of the marker starts earlier.
\<close>

theorem stream_chat_loop_truncates:
  "stream_chat_loop eos_token (map Yield fragments)
     = map Yield
         (takeWhile (\<lambda>t. \<not> sublist eos_token t) fragments
          @ (case dropWhile (\<lambda>t. \<not> sublist eos_token t) fragments of
               [] \<Rightarrow> []
             | t # ignored \<Rightarrow> [take (nat (str_find t eos_token)) t]))
   \<and> (\<forall>t. sublist eos_token t \<longrightarrow>
          (\<exists>rest. t = take (nat (str_find t eos_token)) t @ eos_token @ rest)
        \<and> (\<forall>a b. t = a @ eos_token @ b \<longrightarrow> nat (str_find t eos_token) \<le> length a))"
proof (intro conjI allI impI)
  show "stream_chat_loop eos_token (map Yield fragments)
          = map Yield
              (takeWhile (\<lambda>t. \<not> sublist eos_token t) fragments
               @ (case dropWhile (\<lambda>t. \<not> sublist eos_token t) fragments of
                    [] \<Rightarrow> []
                  | t # ignored \<Rightarrow> [take (nat (str_find t eos_token)) t]))"
    using stream_chat_loop_yields [of eos_token fragments "[]"]
    by (cases "dropWhile (\<lambda>t. \<not> sublist eos_token t) fragments")
       (simp_all del: dropWhile_eq_Nil_conv)
next
  fix t
  assume "sublist eos_token t"
  then have "str_find t eos_token \<noteq> - 1"
    by (simp add: str_find_absent)
  then show "\<exists>rest. t = take (nat (str_find t eos_token)) t @ eos_token @ rest"
    by (rule str_find_split)
next
  fix t a b
  assume "t = a @ eos_token @ b"
  then show "nat (str_find t eos_token) \<le> length a"
    by (rule str_find_first)
qed

theorem stream_chat_loop_truncates_witness:
  "sublist ''<EOS>'' ''world<EOS>''
   \<and> stream_chat_loop ''<EOS>''
        (map Yield [''hello '', ''world<EOS>'', ''ignored'']) = map Yield [''hello '', ''world'']
   \<and> ''world<EOS>'' = ''world'' @ ''<EOS>'' @ []
   \<and> nat (str_find ''world<EOS>'' ''<EOS>'') \<le> length ''world''"
proof -
  have has: "sublist ''<EOS>'' ''world<EOS>''"
    and hasnt: "\<not> sublist ''<EOS>'' ''hello ''"
    by (simp_all add: sublist_Cons_right)
  have at: "take (nat (str_find ''world<EOS>'' ''<EOS>'')) ''world<EOS>'' = ''world''"
    by (simp add: startswith_def)
  have tw: "takeWhile (\<lambda>t. \<not> sublist ''<EOS>'' t) [''hello '', ''world<EOS>'', ''ignored'']
              = [''hello '']"
    using has hasnt by (simp only: takeWhile.simps if_True if_False not_not not_True_eq_False not_False_eq_True)
  have dw: "dropWhile (\<lambda>t. \<not> sublist ''<EOS>'' t) [''hello '', ''world<EOS>'', ''ignored'']
              = [''world<EOS>'', ''ignored'']"
    using has hasnt by (simp only: dropWhile.simps if_True if_False not_not not_True_eq_False not_False_eq_True)
  note all = stream_chat_loop_truncates
    [of "''<EOS>''" "[''hello '', ''world<EOS>'', ''ignored'']"]
  from all have "stream_chat_loop ''<EOS>'' (map Yield [''hello '', ''world<EOS>'', ''ignored''])
          = map Yield ([''hello ''] @ [''world''])"
    unfolding tw dw list.case at by (rule conjunct1)
  then have loop: "stream_chat_loop ''<EOS>''
                     (map Yield [''hello '', ''world<EOS>'', ''ignored''])
                   = map Yield [''hello '', ''world'']"
    by (simp only: append.simps)
  have split: "''world<EOS>'' = ''world'' @ ''<EOS>'' @ []"
    by simp
  from all have "\<forall>a b. ''world<EOS>'' = a @ ''<EOS>'' @ b
                   \<longrightarrow> nat (str_find ''world<EOS>'' ''<EOS>'') \<le> length a"
    using has by blast
  with split have "nat (str_find ''world<EOS>'' ''<EOS>'') \<le> length ''world''"
    by blast
  with has loop split show ?thesis by blast
qed

section \<open>Draining the streamer before an exception\<close>

lemma item_texts_append: "item_texts (p @ q) = item_texts p @ item_texts q"
  by (induction p rule: item_texts.induct) simp_all

lemma yielded_Nil: "yielded [] = []"
  by (simp add: yielded_def)

lemma yielded_append: "yielded (p @ q) = yielded p @ yielded q"
  by (simp add: yielded_def)

lemma yielded_Cons: "yielded (t # q) = (if t \<noteq> [] then Yield t # yielded q else yielded q)"
  by (simp add: yielded_def)

lemma drains_start: "drains texts e (start texts (Some e))"
  by (simp add: drains_def start_def yielded_def)

lemma drains_worker_step: "drains texts e s \<Longrightarrow> drains texts e (worker_step s)"
  by (auto simp: drains_def item_texts_append yielded_append yielded_Cons yielded_Nil
           split: worker.splits list.splits option.splits consumer.splits)

lemma drains_consumer_step: "drains texts e s \<Longrightarrow> drains texts e (consumer_step s)"
  apply (cases "streamer s")
  apply (auto simp: drains_def yielded_Cons yielded_Nil
           split: worker.splits list.splits option.splits consumer.splits item.splits if_splits)
  done

lemma drains_run: "drains texts e s \<Longrightarrow> drains texts e (run schedule s)"
  by (induction schedule s rule: run.induct) (simp_all add: drains_worker_step drains_consumer_step del: worker_step.simps consumer_step.simps)


lemma run_append: "run (p @ q) s = run q (run p s)"
  by (induction p s rule: run.induct) simp_all

lemma run_worker_generating:
  "worker s = Generating rest outcome \<Longrightarrow>
   run (replicate (length rest) Worker) s
     = s\<lparr>worker := Generating [] outcome, streamer := streamer s @ map Text_item rest\<rparr>"
  by (induction rest arbitrary: s) simp_all

lemma run_consumer_texts:
  "consumer s = Iterating \<Longrightarrow> streamer s = map Text_item q @ items \<Longrightarrow>
   run (replicate (length q) Consumer) s
     = s\<lparr>streamer := items, observed := observed s @ yielded q\<rparr>"
  by (induction q arbitrary: s) (simp_all add: yielded_Cons yielded_Nil)

lemma run_sequential:
  "run (replicate (length texts) Worker @ [Worker, Worker]
        @ replicate (length texts) Consumer @ [Consumer, Consumer])
     (start texts (Some e))
   = \<lparr>worker = Finished, streamer = [], exq = [], consumer = Done,
      observed = yielded texts @ [Raise e]\<rparr>"
proof -
  let ?s0 = "start texts (Some e) :: 'a threads"
  have w: "run (replicate (length texts) Worker) ?s0
             = ?s0\<lparr>worker := Generating [] (Some e), streamer := map Text_item texts\<rparr>"
    using run_worker_generating [of ?s0 texts "Some e"] by (simp add: start_def)
  let ?s1 = "\<lparr>worker = Finished, streamer = map Text_item texts @ [Stop], exq = [e],
                consumer = Iterating, observed = []\<rparr> :: 'a threads"
  have w2: "run (replicate (length texts) Worker @ [Worker, Worker]) ?s0 = ?s1"
    by (simp add: run_append w) (simp add: start_def)
  have c: "run (replicate (length texts) Consumer) ?s1
             = ?s1\<lparr>streamer := [Stop], observed := yielded texts\<rparr>"
    using run_consumer_texts [of ?s1 texts "[Stop]"] by simp
  have c2: "run (replicate (length texts) Consumer @ [Consumer, Consumer]) ?s1
               = \<lparr>worker = Finished, streamer = [], exq = [], consumer = Done,
                  observed = yielded texts @ [Raise e]\<rparr>"
    by (simp add: run_append c)
  have "run ((replicate (length texts) Worker @ [Worker, Worker])
             @ (replicate (length texts) Consumer @ [Consumer, Consumer])) ?s0
          = run (replicate (length texts) Consumer @ [Consumer, Consumer])
              (run (replicate (length texts) Worker @ [Worker, Worker]) ?s0)"
    by (rule run_append)
  with w2 c2 show ?thesis by simp
qed

lemma prefix_of_split: "xs @ ys = zs \<Longrightarrow> prefix xs (zs @ ws)"
  by (auto simp: prefix_def)

lemma drains_prefix: "drains texts e s \<Longrightarrow> prefix (observed s) (yielded texts @ [Raise e])"
  by (auto simp: drains_def split: worker.splits consumer.splits
           simp del: prefix_snoc intro: prefix_of_split)

lemma drains_done: "drains texts e s \<Longrightarrow> consumer s = Done \<Longrightarrow> observed s = yielded texts @ [Raise e]"
  by (auto simp: drains_def split: worker.splits consumer.splits)

text \<open>
  C5 (as the code has it). \<^verbatim>\<open>generate\<close> puts the fragments \<open>texts\<close> and then
  raises \<open>e\<close>. Whatever the interleaving of the worker and the consumer, what the
  consumer has seen so far is a prefix of: the non-empty fragments in their order, then
  \<open>e\<close>; when the consumer is done it has seen exactly that; and there is an
  interleaving in which it gets done. Empty fragments are skipped by \<^verbatim>\<open>if text:\<close>.
\<close>

theorem threaded_streaming_generator_drains:
  "prefix (observed (run schedule (start texts (Some e)))) (yielded texts @ [Raise e])
   \<and> (consumer (run schedule (start texts (Some e))) = Done \<longrightarrow>
        observed (run schedule (start texts (Some e))) = yielded texts @ [Raise e])
   \<and> consumer (run (replicate (length texts) Worker @ [Worker, Worker]
                      @ replicate (length texts) Consumer @ [Consumer, Consumer])
                 (start texts (Some e))) = Done"
proof (intro conjI impI)
  have inv: "drains texts e (run schedule (start texts (Some e)))"
    by (rule drains_run [OF drains_start])
  show "prefix (observed (run schedule (start texts (Some e)))) (yielded texts @ [Raise e])"
    by (rule drains_prefix [OF inv])
  show "observed (run schedule (start texts (Some e))) = yielded texts @ [Raise e]"
    if "consumer (run schedule (start texts (Some e))) = Done"
    by (rule drains_done [OF inv that])
  show "consumer (run (replicate (length texts) Worker @ [Worker, Worker]
                       @ replicate (length texts) Consumer @ [Consumer, Consumer])
                   (start texts (Some e))) = Done"
    by (simp only: run_sequential threads.simps)
qed

theorem threaded_streaming_generator_drains_witness:
  "consumer (run [Worker, Worker, Worker, Consumer, Consumer, Consumer]
               (start [''partial''] (Some (OtherError ''out of memory'')))) = Done
   \<and> observed (run [Worker, Worker, Worker, Consumer, Consumer, Consumer]
                 (start [''partial''] (Some (OtherError ''out of memory''))))
       = [Yield ''partial'', Raise (OtherError ''out of memory'')]"
proof -
  have finished: "consumer (run [Worker, Worker, Worker, Consumer, Consumer, Consumer]
                    (start [''partial''] (Some (OtherError ''out of memory'')))) = Done"
    by (simp add: start_def)
  have y: "yielded [''partial''] @ [Raise (OtherError ''out of memory'')]
             = [Yield ''partial'', Raise (OtherError ''out of memory'')]"
    by (simp add: yielded_def)
  have "consumer (run [Worker, Worker, Worker, Consumer, Consumer, Consumer]
                    (start [''partial''] (Some (OtherError ''out of memory'')))) = Done \<longrightarrow>
        observed (run [Worker, Worker, Worker, Consumer, Consumer, Consumer]
                    (start [''partial''] (Some (OtherError ''out of memory''))))
          = yielded [''partial''] @ [Raise (OtherError ''out of memory'')]"
    using threaded_streaming_generator_drains
         [of "[Worker, Worker, Worker, Consumer, Consumer, Consumer]" "[''partial'']"
             "OtherError ''out of memory''"]
    by (elim conjE)
  then have "observed (run [Worker, Worker, Worker, Consumer, Consumer, Consumer]
                    (start [''partial''] (Some (OtherError ''out of memory''))))
          = [Yield ''partial'', Raise (OtherError ''out of memory'')]"
    unfolding y using finished by (rule mp)
  with finished show ?thesis by (rule conjI)
qed

text \<open>
  C5 as stated fails on an empty fragment: the producer emits \<^verbatim>\<open>""\<close> and raises,
  and the consumer sees the exception only.
\<close>

theorem empty_fragment_not_observed:
  "consumer (run [Worker, Worker, Worker, Consumer, Consumer, Consumer]
               (start [[]] (Some TypeError))) = Done
   \<and> observed (run [Worker, Worker, Worker, Consumer, Consumer, Consumer]
                 (start [[]] (Some TypeError))) = [Raise TypeError]
   \<and> observed (run [Worker, Worker, Worker, Consumer, Consumer, Consumer]
                 (start [[]] (Some TypeError))) \<noteq> map Yield [[]] @ [Raise TypeError]"
  by (simp add: start_def)

section \<open>The trailing assistant message\<close>

lemma trailing_assistant_some:
  "ms \<noteq> [] \<Longrightarrow> role (last ms) = ''assistant''
   \<Longrightarrow> content_0_text (content (last ms)) = Inr (Some t)
   \<Longrightarrow> trailing_assistant g ms = (butlast ms, Inr (g @ t))"
  by (simp add: trailing_assistant_def add_str_def)

lemma trailing_assistant_none:
  "ms \<noteq> [] \<Longrightarrow> role (last ms) = ''assistant''
   \<Longrightarrow> content_0_text (content (last ms)) = Inr None
   \<Longrightarrow> trailing_assistant g ms = (ms, Inl TypeError)"
  by (simp add: trailing_assistant_def add_str_def)

lemma trailing_assistant_error:
  "ms \<noteq> [] \<Longrightarrow> role (last ms) = ''assistant''
   \<Longrightarrow> content_0_text (content (last ms)) = Inl e
   \<Longrightarrow> trailing_assistant g ms = (ms, Inl e)"
  by (simp add: trailing_assistant_def)

lemma trailing_assistant_remaining:
  "trailing_assistant g ms = (ms', Inr g') \<Longrightarrow> ms' = remaining ms"
  by (auto simp: trailing_assistant_def remaining_def split: if_splits sum.splits)

lemma ebind_Inr_iff: "ebind m f = Inr y \<longleftrightarrow> (\<exists>x. m = Inr x \<and> f x = Inr y)"
  by (cases m) simp_all

lemma with_generation_msg_continues: "continues g (with_generation_msg g turn prompt0)"
  by (auto simp: continues_def with_generation_msg_def ebind_Inr_iff suffix_def
           split: prod.splits sum.splits)

lemma phi3_continues: "continues ''<|assistant|>\<newline>'' (phi3_prompt_from_messages env img_tok)"
  by (auto simp: continues_def phi3_prompt_from_messages_def ebind_Inr_iff suffix_def
           split: prod.splits sum.splits)

lemma emu_continues: "continues '' [ASSISTANT]:'' (emu_images_prompt env img_tok)"
  by (auto simp: continues_def emu_images_prompt_def emu_images_prompt_system_from_messages_def
           ebind_Inr_iff suffix_def
           split: prod.splits sum.splits)

lemma extracting_formats_continue:
  "(g, f) \<in> set (extracting_formats env) \<Longrightarrow> continues g f"
  unfolding extracting_formats_def
  by (auto simp: chatml_prompt_from_messages_def falcon_prompt_from_messages_def
        gemma_prompt_from_messages_def glm4v_prompt_from_messages_def
        llama3_prompt_from_messages_def phi15_prompt_from_messages_def
        phintern_prompt_from_messages_def vicuna_prompt_from_messages_def
        vicuna0_prompt_from_messages_def with_generation_msg_continues phi3_continues
        emu_continues)

lemma trailing_user_prefix: "prefix (fst (trailing_user ms)) ms"
  by (auto simp: trailing_user_def split: sum.splits intro: prefixeq_butlast)

lemma pixtral_error:
  "trailing_assistant [] ms = (ms', Inl e) \<Longrightarrow> pixtral_prompt_from_messages env img_tok ms = (ms', Inl e)"
  by (simp add: pixtral_prompt_from_messages_def)

lemma pixtral_prefix:
  "trailing_assistant [] ms = (ms', Inr g') \<Longrightarrow> prefix (fst (pixtral_prompt_from_messages env img_tok ms)) ms'"
  using trailing_user_prefix [of ms']
  by (auto simp: pixtral_prompt_from_messages_def split: prod.splits sum.splits)

lemma pixtral_suffix:
  "trailing_assistant [] ms = (ms', Inr g') \<Longrightarrow> snd (pixtral_prompt_from_messages env img_tok ms) = Inr (images, prompt)
   \<Longrightarrow> suffix g' prompt"
  by (auto simp: pixtral_prompt_from_messages_def ebind_Inr_iff suffix_def Let_def
           split: prod.splits sum.splits if_splits)

lemma continues_popped:
  assumes "continues g f" and "ms \<noteq> []" and "role (last ms) = ''assistant''"
  shows "(\<forall>t. content_0_text (content (last ms)) = Inr (Some t) \<longrightarrow> fst (f ms) = butlast ms)
         \<and> ((\<forall>t. content_0_text (content (last ms)) \<noteq> Inr (Some t)) \<longrightarrow>
               fst (f ms) = ms \<and> isl (snd (f ms)))"
proof (cases "content_0_text (content (last ms))")
  case (Inl e)
  with assms(2,3) have "trailing_assistant g ms = (ms, Inl e)"
    by (simp add: trailing_assistant_error)
  with assms(1) have "f ms = (ms, Inl e)"
    by (auto simp: continues_def split: prod.splits sum.splits)
  with Inl show ?thesis by simp
next
  case (Inr tx)
  show ?thesis
  proof (cases tx)
    case None
    with Inr assms(2,3) have "trailing_assistant g ms = (ms, Inl TypeError)"
      by (simp add: trailing_assistant_none)
    with assms(1) have "f ms = (ms, Inl TypeError)"
      by (auto simp: continues_def split: prod.splits sum.splits)
    with Inr None show ?thesis by simp
  next
    case (Some t)
    with Inr assms(2,3) have "trailing_assistant g ms = (butlast ms, Inr (g @ t))"
      by (simp add: trailing_assistant_some)
    with assms(1) have "fst (f ms) = butlast ms"
      by (auto simp: continues_def split: prod.splits sum.splits)
    with Inr Some show ?thesis by simp
  qed
qed

lemma pixtral_popped:
  assumes "ms \<noteq> []" and "role (last ms) = ''assistant''"
  shows "(\<forall>t. content_0_text (content (last ms)) = Inr (Some t) \<longrightarrow>
             prefix (fst (pixtral_prompt_from_messages env img_tok ms)) (butlast ms))
         \<and> ((\<forall>t. content_0_text (content (last ms)) \<noteq> Inr (Some t)) \<longrightarrow>
               fst (pixtral_prompt_from_messages env img_tok ms) = ms
               \<and> isl (snd (pixtral_prompt_from_messages env img_tok ms)))"
proof (cases "content_0_text (content (last ms))")
  case (Inl e)
  with assms have "trailing_assistant [] ms = (ms, Inl e)"
    by (simp add: trailing_assistant_error)
  then have "pixtral_prompt_from_messages env img_tok ms = (ms, Inl e)"
    by (rule pixtral_error)
  with Inl show ?thesis by simp
next
  case (Inr tx)
  show ?thesis
  proof (cases tx)
    case None
    with Inr assms have "trailing_assistant [] ms = (ms, Inl TypeError)"
      by (simp add: trailing_assistant_none)
    then have "pixtral_prompt_from_messages env img_tok ms = (ms, Inl TypeError)"
      by (rule pixtral_error)
    with Inr None show ?thesis by simp
  next
    case (Some t)
    with Inr assms have "trailing_assistant [] ms = (butlast ms, Inr ([] @ t))"
      by (simp add: trailing_assistant_some)
    then have "prefix (fst (pixtral_prompt_from_messages env img_tok ms)) (butlast ms)"
      by (rule pixtral_prefix)
    with Inr Some show ?thesis by simp
  qed
qed

text \<open>
  C3 (as the code has it). The functions pop from the list they are given: there is no
  working copy. When the last message has role assistant and its
  \<^verbatim>\<open>content[0].text\<close> is a string, the caller's list after the call is the list
  without its last message (for pixtral a prefix of that: it may pop once more);
  otherwise the call raises and the list is as it was.
\<close>

theorem trailing_assistant_popped:
  "(\<forall>(g, f) \<in> set (extracting_formats env).
      ms \<noteq> [] \<and> role (last ms) = ''assistant'' \<longrightarrow>
        (\<forall>t. content_0_text (content (last ms)) = Inr (Some t) \<longrightarrow> fst (f ms) = butlast ms)
      \<and> ((\<forall>t. content_0_text (content (last ms)) \<noteq> Inr (Some t)) \<longrightarrow>
            fst (f ms) = ms \<and> isl (snd (f ms))))
   \<and> (ms \<noteq> [] \<and> role (last ms) = ''assistant'' \<longrightarrow>
        (\<forall>t. content_0_text (content (last ms)) = Inr (Some t) \<longrightarrow>
           prefix (fst (pixtral_prompt_from_messages env ''[IMG]'' ms)) (butlast ms))
      \<and> ((\<forall>t. content_0_text (content (last ms)) \<noteq> Inr (Some t)) \<longrightarrow>
            fst (pixtral_prompt_from_messages env ''[IMG]'' ms) = ms
            \<and> isl (snd (pixtral_prompt_from_messages env ''[IMG]'' ms))))"
proof (rule conjI)
  show "\<forall>(g, f) \<in> set (extracting_formats env).
      ms \<noteq> [] \<and> role (last ms) = ''assistant'' \<longrightarrow>
        (\<forall>t. content_0_text (content (last ms)) = Inr (Some t) \<longrightarrow> fst (f ms) = butlast ms)
      \<and> ((\<forall>t. content_0_text (content (last ms)) \<noteq> Inr (Some t)) \<longrightarrow>
            fst (f ms) = ms \<and> isl (snd (f ms)))"
  proof (intro ballI)
    fix gf
    assume mem: "gf \<in> set (extracting_formats env)"
    obtain g f where gf: "gf = (g, f)" by (cases gf)
    with mem have c: "continues g f" by (simp add: extracting_formats_continue)
    show "case gf of (g, f) \<Rightarrow>
      ms \<noteq> [] \<and> role (last ms) = ''assistant'' \<longrightarrow>
        (\<forall>t. content_0_text (content (last ms)) = Inr (Some t) \<longrightarrow> fst (f ms) = butlast ms)
      \<and> ((\<forall>t. content_0_text (content (last ms)) \<noteq> Inr (Some t)) \<longrightarrow>
            fst (f ms) = ms \<and> isl (snd (f ms)))"
      unfolding gf prod.case using continues_popped [OF c] by blast
  qed
next
  show "ms \<noteq> [] \<and> role (last ms) = ''assistant'' \<longrightarrow>
        (\<forall>t. content_0_text (content (last ms)) = Inr (Some t) \<longrightarrow>
           prefix (fst (pixtral_prompt_from_messages env ''[IMG]'' ms)) (butlast ms))
      \<and> ((\<forall>t. content_0_text (content (last ms)) \<noteq> Inr (Some t)) \<longrightarrow>
            fst (pixtral_prompt_from_messages env ''[IMG]'' ms) = ms
            \<and> isl (snd (pixtral_prompt_from_messages env ''[IMG]'' ms)))"
    using pixtral_popped [of ms env "''[IMG]''"] by blast
qed

lemma chatml_listed:
  "(''<|im_start|>assistant\<newline>'', chatml_prompt_from_messages env ''<image>\<newline>'')
     \<in> set (extracting_formats env)"
  by (simp add: extracting_formats_def)

theorem trailing_assistant_popped_witness:
  "hi_partial \<noteq> [] \<and> role (last hi_partial) = ''assistant''
   \<and> content_0_text (content (last hi_partial)) = Inr (Some ''partial'')
   \<and> fst (chatml_prompt_from_messages offline_libs ''<image>\<newline>'' hi_partial)
       = butlast hi_partial
   \<and> prefix (fst (pixtral_prompt_from_messages offline_libs ''[IMG]'' hi_partial))
        (butlast hi_partial)
   \<and> assistant_image \<noteq> [] \<and> role (last assistant_image) = ''assistant''
   \<and> (\<forall>t. content_0_text (content (last assistant_image)) \<noteq> Inr (Some t))
   \<and> fst (chatml_prompt_from_messages offline_libs ''<image>\<newline>'' assistant_image)
       = assistant_image
   \<and> isl (snd (chatml_prompt_from_messages offline_libs ''<image>\<newline>'' assistant_image))"
proof -
  have a: "hi_partial \<noteq> []" "role (last hi_partial) = ''assistant''"
    "content_0_text (content (last hi_partial)) = Inr (Some ''partial'')"
    by (simp_all add: hi_partial_def)
  have b: "assistant_image \<noteq> []" "role (last assistant_image) = ''assistant''"
    "\<forall>t. content_0_text (content (last assistant_image)) \<noteq> Inr (Some t)"
    by (simp_all add: assistant_image_def)
  note p = trailing_assistant_popped [of offline_libs hi_partial]
  note q = trailing_assistant_popped [of offline_libs assistant_image]
  from p [THEN conjunct1, rule_format, OF chatml_listed] a
  have 1: "fst (chatml_prompt_from_messages offline_libs ''<image>\<newline>'' hi_partial)
             = butlast hi_partial"
    by simp
  from p [THEN conjunct2] a
  have 2: "prefix (fst (pixtral_prompt_from_messages offline_libs ''[IMG]'' hi_partial))
             (butlast hi_partial)"
    by blast
  from q [THEN conjunct1, rule_format, OF chatml_listed] b
  have 3: "fst (chatml_prompt_from_messages offline_libs ''<image>\<newline>'' assistant_image)
             = assistant_image
           \<and> isl (snd (chatml_prompt_from_messages offline_libs ''<image>\<newline>''
                         assistant_image))"
    by simp
  from a b 1 2 3 show ?thesis by blast
qed

text \<open>
  C3 as stated fails: after chatml on \<open>[user "hi", assistant "partial"]\<close> the
  caller's list has lost its last message.
\<close>

theorem caller_list_mutated:
  "fst (chatml_prompt_from_messages offline_libs ''<image>\<newline>'' hi_partial) = butlast hi_partial
   \<and> fst (chatml_prompt_from_messages offline_libs ''<image>\<newline>'' hi_partial) \<noteq> hi_partial
   \<and> role (last hi_partial) = ''assistant''"
  by (simp add: chatml_prompt_from_messages_def with_generation_msg_def trailing_assistant_def
        add_str_def hi_partial_def)


lemma continues_marker:
  assumes "continues g f" and "ms \<noteq> []" and "role (last ms) = ''assistant''"
  shows "(\<forall>e. content_0_text (content (last ms)) = Inl e \<longrightarrow> snd (f ms) = Inl e)
       \<and> (content_0_text (content (last ms)) = Inr None \<longrightarrow> snd (f ms) = Inl TypeError)
       \<and> (\<forall>t images prompt. content_0_text (content (last ms)) = Inr (Some t) \<longrightarrow>
             snd (f ms) = Inr (images, prompt) \<longrightarrow> suffix (g @ t) prompt)"
proof (intro conjI allI impI)
  fix e
  assume "content_0_text (content (last ms)) = Inl e"
  with assms(2,3) have "trailing_assistant g ms = (ms, Inl e)"
    by (simp add: trailing_assistant_error)
  with assms(1) show "snd (f ms) = Inl e"
    by (auto simp: continues_def split: prod.splits sum.splits)
next
  assume "content_0_text (content (last ms)) = Inr None"
  with assms(2,3) have "trailing_assistant g ms = (ms, Inl TypeError)"
    by (simp add: trailing_assistant_none)
  with assms(1) show "snd (f ms) = Inl TypeError"
    by (auto simp: continues_def split: prod.splits sum.splits)
next
  fix t images prompt
  assume "content_0_text (content (last ms)) = Inr (Some t)"
    and ok: "snd (f ms) = Inr (images, prompt)"
  with assms(2,3) have "trailing_assistant g ms = (butlast ms, Inr (g @ t))"
    by (simp add: trailing_assistant_some)
  with assms(1) ok show "suffix (g @ t) prompt"
    by (auto simp: continues_def split: prod.splits sum.splits)
qed

lemma pixtral_marker:
  assumes "ms \<noteq> []" and "role (last ms) = ''assistant''"
  shows "(\<forall>e. content_0_text (content (last ms)) = Inl e \<longrightarrow>
            snd (pixtral_prompt_from_messages env img_tok ms) = Inl e)
       \<and> (content_0_text (content (last ms)) = Inr None \<longrightarrow>
            snd (pixtral_prompt_from_messages env img_tok ms) = Inl TypeError)
       \<and> (\<forall>t images prompt. content_0_text (content (last ms)) = Inr (Some t) \<longrightarrow>
             snd (pixtral_prompt_from_messages env img_tok ms) = Inr (images, prompt) \<longrightarrow>
             suffix ([] @ t) prompt)"
proof (intro conjI allI impI)
  fix e
  assume "content_0_text (content (last ms)) = Inl e"
  with assms have "trailing_assistant [] ms = (ms, Inl e)"
    by (simp add: trailing_assistant_error)
  then show "snd (pixtral_prompt_from_messages env img_tok ms) = Inl e"
    by (simp add: pixtral_error)
next
  assume "content_0_text (content (last ms)) = Inr None"
  with assms have "trailing_assistant [] ms = (ms, Inl TypeError)"
    by (simp add: trailing_assistant_none)
  then show "snd (pixtral_prompt_from_messages env img_tok ms) = Inl TypeError"
    by (simp add: pixtral_error)
next
  fix t images prompt
  assume "content_0_text (content (last ms)) = Inr (Some t)"
    and ok: "snd (pixtral_prompt_from_messages env img_tok ms) = Inr (images, prompt)"
  with assms have "trailing_assistant [] ms = (butlast ms, Inr ([] @ t))"
    by (simp add: trailing_assistant_some)
  from pixtral_suffix [OF this ok] show "suffix ([] @ t) prompt" .
qed

text \<open>
  C10 (as the code has it). When the last message has role assistant, a function that
  continues it needs \<^verbatim>\<open>content[0].text\<close> of that message, whatever the type of the
  part: if the content has no first part the call raises what the read raises, if the
  text is None it raises a TypeError, and if the text is a string \<open>t\<close> then every
  prompt the call returns ends with the function's marker followed by exactly \<open>t\<close>.
\<close>

theorem continuation_marker:
  "\<forall>(g, f) \<in> set (extracting_formats env @ [([], pixtral_prompt_from_messages env ''[IMG]'')]).
     ms \<noteq> [] \<and> role (last ms) = ''assistant'' \<longrightarrow>
       (\<forall>e. content_0_text (content (last ms)) = Inl e \<longrightarrow> snd (f ms) = Inl e)
     \<and> (content_0_text (content (last ms)) = Inr None \<longrightarrow> snd (f ms) = Inl TypeError)
     \<and> (\<forall>t images prompt. content_0_text (content (last ms)) = Inr (Some t) \<longrightarrow>
           snd (f ms) = Inr (images, prompt) \<longrightarrow> suffix (g @ t) prompt)"
proof (intro ballI)
  fix gf
  assume mem: "gf \<in> set (extracting_formats env @ [([], pixtral_prompt_from_messages env ''[IMG]'')])"
  obtain g f where gf: "gf = (g, f)" by (cases gf)
  from mem gf consider "continues g f"
    | "g = []" and "f = pixtral_prompt_from_messages env ''[IMG]''"
    by (auto simp: extracting_formats_continue)
  then show "case gf of (g, f) \<Rightarrow>
     ms \<noteq> [] \<and> role (last ms) = ''assistant'' \<longrightarrow>
       (\<forall>e. content_0_text (content (last ms)) = Inl e \<longrightarrow> snd (f ms) = Inl e)
     \<and> (content_0_text (content (last ms)) = Inr None \<longrightarrow> snd (f ms) = Inl TypeError)
     \<and> (\<forall>t images prompt. content_0_text (content (last ms)) = Inr (Some t) \<longrightarrow>
           snd (f ms) = Inr (images, prompt) \<longrightarrow> suffix (g @ t) prompt)"
  proof cases
    case 1
    show ?thesis unfolding gf prod.case
      using continues_marker [OF 1, of ms] by blast
  next
    case 2
    show ?thesis unfolding gf prod.case 2
      using pixtral_marker [of ms env "''[IMG]''"] by blast
  qed
qed

theorem continuation_marker_witness:
  "hi_partial \<noteq> [] \<and> role (last hi_partial) = ''assistant''
   \<and> content_0_text (content (last hi_partial)) = Inr (Some ''partial'')
   \<and> snd (chatml_prompt_from_messages offline_libs ''<image>\<newline>'' hi_partial)
       = Inr ([], ''<|im_start|>user\<newline>hi<|im_end|><|im_start|>assistant\<newline>partial'')
   \<and> suffix (''<|im_start|>assistant\<newline>'' @ ''partial'')
        ''<|im_start|>user\<newline>hi<|im_end|><|im_start|>assistant\<newline>partial''
   \<and> assistant_image \<noteq> [] \<and> role (last assistant_image) = ''assistant''
   \<and> content_0_text (content (last assistant_image)) = Inr None
   \<and> snd (chatml_prompt_from_messages offline_libs ''<image>\<newline>'' assistant_image)
       = Inl TypeError
   \<and> assistant_empty \<noteq> [] \<and> role (last assistant_empty) = ''assistant''
   \<and> content_0_text (content (last assistant_empty)) = Inl IndexError
   \<and> snd (chatml_prompt_from_messages offline_libs ''<image>\<newline>'' assistant_empty)
       = Inl IndexError"
proof -
  have listed: "(''<|im_start|>assistant\<newline>'',
                 chatml_prompt_from_messages offline_libs ''<image>\<newline>'')
                  \<in> set (extracting_formats offline_libs
                          @ [([], pixtral_prompt_from_messages offline_libs ''[IMG]'')])"
    by (simp add: extracting_formats_def)
  have a: "hi_partial \<noteq> []" "role (last hi_partial) = ''assistant''"
    "content_0_text (content (last hi_partial)) = Inr (Some ''partial'')"
    by (simp_all add: hi_partial_def)
  have run: "snd (chatml_prompt_from_messages offline_libs ''<image>\<newline>'' hi_partial)
       = Inr ([], ''<|im_start|>user\<newline>hi<|im_end|><|im_start|>assistant\<newline>partial'')"
    by (simp add: chatml_prompt_from_messages_def with_generation_msg_def
          trailing_assistant_def add_str_def hi_partial_def role_message_def
          image_and_text_def fmt_def)
  have b: "assistant_image \<noteq> []" "role (last assistant_image) = ''assistant''"
    "content_0_text (content (last assistant_image)) = Inr None"
    by (simp_all add: assistant_image_def)
  have c: "assistant_empty \<noteq> []" "role (last assistant_empty) = ''assistant''"
    "content_0_text (content (last assistant_empty)) = Inl IndexError"
    by (simp_all add: assistant_empty_def)
  from continuation_marker [of offline_libs hi_partial, rule_format, OF listed] a run
  have 1: "suffix (''<|im_start|>assistant\<newline>'' @ ''partial'')
        ''<|im_start|>user\<newline>hi<|im_end|><|im_start|>assistant\<newline>partial''"
    by (simp only: prod.case) blast
  from continuation_marker [of offline_libs assistant_image, rule_format, OF listed] b
  have 2: "snd (chatml_prompt_from_messages offline_libs ''<image>\<newline>'' assistant_image)
       = Inl TypeError"
    by (simp only: prod.case) blast
  from continuation_marker [of offline_libs assistant_empty, rule_format, OF listed] c
  have 3: "snd (chatml_prompt_from_messages offline_libs ''<image>\<newline>'' assistant_empty)
       = Inl IndexError"
    by (simp only: prod.case) blast
  from a b c run 1 2 3 show ?thesis by blast
qed

text \<open>
  C10 as stated fails on an image_url part that carries a text: the trailing assistant
  message is continued from that text and a prompt is returned.
\<close>

theorem image_url_part_with_text_continues:
  "role (last image_with_text) = ''assistant''
   \<and> content (last image_with_text)
       = Parts [\<lparr>type = Image_url, c_text = Some ''partial'',
                  image_url = Some \<lparr>url = ''data:image/png;base64,iVBORw0KGgo='',
                                    detail = Some ''auto''\<rparr>\<rparr>]
   \<and> snd (chatml_prompt_from_messages offline_libs ''<image>\<newline>'' image_with_text)
       = Inr ([], ''<|im_start|>assistant\<newline>partial'')"
  by (simp add: chatml_prompt_from_messages_def with_generation_msg_def trailing_assistant_def
        add_str_def image_with_text_def)

section \<open>Several text parts in a message that is not the user's\<close>

lemma for_each_text_part:
  "for_each (text_part template) cs prompt
     = Inr (prompt @ concat (map (\<lambda>c. template (fmt (c_text c))) (filter (\<lambda>c. type c = Text) cs)))"
  by (induction cs arbitrary: prompt) (simp_all add: text_part_def)

lemma join_result:
  "join ts = (if None \<in> set ts then Inl TypeError else Inr (concat (map the ts)))"
  by (induction ts rule: join.induct) auto

lemma for_each_appends:
  assumes step: "\<And>x s s'. body x s = Inr s' \<Longrightarrow> out s' = out s @ blk x"
    and run: "for_each body xs s = Inr s'"
  shows "out s' = out s @ concat (map blk xs)"
  using run
proof (induction xs arbitrary: s)
  case Nil
  then show ?case by simp
next
  case (Cons x xs)
  from Cons.prems obtain s1 where first: "body x s = Inr s1" and rest: "for_each body xs s1 = Inr s'"
    by (auto simp: ebind_Inr_iff)
  from step [OF first] Cons.IH [OF rest] show ?case by simp
qed

lemma for_each_succeeds:
  assumes "\<And>x s. x \<in> set xs \<Longrightarrow> \<exists>s'. body x s = Inr s'"
  shows "\<exists>s'. for_each body xs s = Inr s'"
  using assms
proof (induction xs arbitrary: s)
  case Nil
  then show ?case by simp
next
  case (Cons x xs)
  from Cons.prems [of x s] obtain s1 where first: "body x s = Inr s1" by auto
  from Cons.IH [of s1] Cons.prems obtain s' where "for_each body xs s1 = Inr s'" by auto
  with first show ?case by simp
qed

lemma image_and_text_loop:
  "for_each (image_and_text env img_tok) cs (images, img_tag, tx) = Inr (images', img_tag', tx')
   \<Longrightarrow> img_tag' = img_tag @ concat (map (\<lambda>c. img_tok) (filter (\<lambda>c. type c = Image_url) cs))
       \<and> tx' = (if filter (\<lambda>c. type c = Text) cs = [] then tx
                 else c_text (last (filter (\<lambda>c. type c = Text) cs)))"
proof (induction cs arbitrary: images img_tag tx)
  case Nil
  then show ?case by simp
next
  case (Cons c cs)
  from Cons.prems obtain i1 t1 x1
    where first: "image_and_text env img_tok c (images, img_tag, tx) = Inr (i1, t1, x1)"
      and rest: "for_each (image_and_text env img_tok) cs (i1, t1, x1) = Inr (images', img_tag', tx')"
    by (auto simp: ebind_Inr_iff)
  from first have t1: "t1 = (if type c = Image_url then img_tag @ img_tok else img_tag)"
    and x1: "x1 = (if type c = Text then c_text c else tx)"
    by (auto simp: image_and_text_def ebind_Inr_iff split: if_splits)
  from Cons.IH [OF rest] t1 x1 show ?case by auto
qed

lemma image_and_text_succeeds:
  assumes "type c = Image_url \<longrightarrow> \<not> isl (ebind (image_url_url c) (url_to_image env))"
  shows "\<exists>s'. image_and_text env img_tok c s = Inr s'"
proof -
  obtain images img_tag tx where s: "s = (images, img_tag, tx)" by (cases s)
  show ?thesis
  proof (cases "type c = Image_url")
    case True
    with assms obtain img where "ebind (image_url_url c) (url_to_image env) = Inr img"
      by (cases "ebind (image_url_url c) (url_to_image env)") auto
    then obtain u where "image_url_url c = Inr u" "url_to_image env u = Inr img"
      by (auto simp: ebind_Inr_iff)
    with True s show ?thesis by (simp add: image_and_text_def)
  next
    case False
    with s show ?thesis by (simp add: image_and_text_def)
  qed
qed


lemma chatml_turn_blocks:
  assumes "role_message env img_tok
             (\<lambda>img_tag text. ''<|im_start|>user\<newline>'' @ img_tag @ text @ ''<|im_end|>'')
             (\<lambda>text. ''<|im_start|>assistant\<newline>'' @ text @ ''<|im_end|>'')
             (Some (\<lambda>text. ''<|im_start|>system\<newline>'' @ text @ ''<|im_end|>'')) m s = Inr s'"
  shows "snd s' = snd s @ chatml_blocks img_tok m"
proof -
  obtain images prompt where s: "s = (images, prompt)" by (cases s)
  consider (user) "role m = ''user''" | (assistant) "role m = ''assistant''"
    | (system) "role m = ''system''"
    | (other) "role m \<noteq> ''user''" "role m \<noteq> ''assistant''" "role m \<noteq> ''system''"
    by blast
  then show ?thesis
  proof cases
    case user
    show ?thesis
    proof (cases "content m")
      case (Str str)
      with assms user s show ?thesis
        by (auto simp: role_message_def ebind_Inr_iff chatml_blocks_def image_url_parts_def
              text_parts_def last_text_def fmt_def split: if_splits)
    next
      case (Parts cs)
      with assms user s obtain i1 t1 x1
        where loop: "for_each (image_and_text env img_tok) cs (images, [], Some []) = Inr (i1, t1, x1)"
          and s': "snd s' = prompt @ ''<|im_start|>user\<newline>'' @ t1 @ fmt x1 @ ''<|im_end|>''"
        by (auto simp: role_message_def ebind_Inr_iff)
      from image_and_text_loop [OF loop] Parts
      have "t1 = concat (map (\<lambda>c. img_tok) (image_url_parts m))" and "x1 = last_text m"
        by (simp_all add: image_url_parts_def text_parts_def last_text_def)
      with s' user s show ?thesis by (simp add: chatml_blocks_def)
    qed
  next
    case assistant
    show ?thesis
    proof (cases "content m")
      case (Str str)
      with assms assistant s show ?thesis
        by (auto simp: role_message_def ebind_Inr_iff chatml_blocks_def text_parts_def
              split: if_splits)
    next
      case (Parts cs)
      with assms assistant s show ?thesis
        by (auto simp: role_message_def ebind_Inr_iff chatml_blocks_def text_parts_def
              for_each_text_part)
    qed
  next
    case system
    show ?thesis
    proof (cases "content m")
      case (Str str)
      with assms system s show ?thesis
        by (auto simp: role_message_def ebind_Inr_iff chatml_blocks_def text_parts_def
              split: if_splits)
    next
      case (Parts cs)
      with assms system s show ?thesis
        by (auto simp: role_message_def ebind_Inr_iff chatml_blocks_def text_parts_def
              for_each_text_part)
    qed
  next
    case other
    with assms s show ?thesis
      by (auto simp: role_message_def chatml_blocks_def)
  qed
qed

lemma chatml_turn_succeeds:
  assumes "walkable env m"
  shows "\<exists>s'. role_message env img_tok user_t assistant_t system_t m s = Inr s'"
proof -
  obtain images prompt where s: "s = (images, prompt)" by (cases s)
  from assms obtain cs where cs: "content m = Parts cs"
    by (auto simp: walkable_def split: content.splits)
  show ?thesis
  proof (cases "role m = ''user''")
    case True
    with assms cs have "\<And>c. c \<in> set cs \<Longrightarrow>
        type c = Image_url \<longrightarrow> \<not> isl (ebind (image_url_url c) (url_to_image env))"
      by (auto simp: walkable_def image_url_parts_def)
    then have "\<exists>t. for_each (image_and_text env img_tok) cs (images, [], Some []) = Inr t"
      by (intro for_each_succeeds image_and_text_succeeds)
    then obtain i1 t1 x1
      where "for_each (image_and_text env img_tok) cs (images, [], Some []) = Inr (i1, t1, x1)"
      by (metis prod_cases3)
    with True cs s show ?thesis by (simp add: role_message_def)
  next
    case False
    with cs s show ?thesis
      by (auto simp: role_message_def for_each_text_part)
  qed
qed


lemma qwen_messages_loop:
  "for_each (\<lambda>m msgs. ebind (qwen_message m) (\<lambda>msg. Inr (msgs @ [msg]))) ms acc = Inr ds
     \<longleftrightarrow> (\<exists>new. ds = acc @ new \<and> list_all2 (\<lambda>m d. qwen_message m = Inr d) ms new)"
proof (induction ms arbitrary: acc)
  case Nil
  then show ?case by auto
next
  case (Cons m ms)
  show ?case
  proof (cases "qwen_message m")
    case (Inl e)
    then show ?thesis by (auto simp: list_all2_Cons1)
  next
    case (Inr d)
    then show ?thesis by (auto simp: Cons.IH list_all2_Cons1)
  qed
qed

lemma qwen_message_parts:
  assumes "role m \<noteq> ''user''" and "content m = Parts cs"
  shows "qwen_message m
     = (if \<forall>c \<in> set cs. c_text c \<noteq> None
        then Inr \<lparr>d_role = role m,
                  d_content = [Text_dict (Some (concat (map (\<lambda>c. the (c_text c)) cs)))]\<rparr>
        else Inl TypeError)"
proof -
  have "None \<in> set (map c_text cs) \<longleftrightarrow> \<not> (\<forall>c \<in> set cs. c_text c \<noteq> None)"
    by (induction cs) auto
  moreover have "map the (map c_text cs) = map (\<lambda>c. the (c_text c)) cs"
    by simp
  ultimately show ?thesis using assms
    by (simp add: qwen_message_def join_result del: set_map map_map)
qed

lemma qwen_message_str:
  "role m \<noteq> ''user'' \<Longrightarrow> content m = Str str \<Longrightarrow>
   qwen_message m
     = (if str = [] then Inr \<lparr>d_role = role m, d_content = [Text_dict (Some [])]\<rparr>
        else Inl AttributeError)"
  by (simp add: qwen_message_def)

lemma chatml_returns_blocks:
  assumes "snd (chatml_prompt_from_messages env img_tok ms) = Inr (images, prompt)"
  shows "\<exists>g. snd (trailing_assistant ''<|im_start|>assistant\<newline>'' ms) = Inr g
              \<and> prompt = concat (map (chatml_blocks img_tok) (remaining ms)) @ g"
proof -
  let ?turn = "role_message env img_tok
             (\<lambda>img_tag text. ''<|im_start|>user\<newline>'' @ img_tag @ text @ ''<|im_end|>'')
             (\<lambda>text. ''<|im_start|>assistant\<newline>'' @ text @ ''<|im_end|>'')
             (Some (\<lambda>text. ''<|im_start|>system\<newline>'' @ text @ ''<|im_end|>''))"
  obtain ms' r where ta0: "trailing_assistant ''<|im_start|>assistant\<newline>'' ms = (ms', r)"
    by (cases "trailing_assistant ''<|im_start|>assistant\<newline>'' ms")
  show ?thesis
  proof (cases r)
    case (Inl e)
    from assms have False
      unfolding chatml_prompt_from_messages_def with_generation_msg_def ta0 Inl
      by (simp only: prod.case sum.case snd_conv sum.distinct)
    then show ?thesis ..
  next
    case (Inr g)
    from assms have "ebind (for_each ?turn ms' ([], []))
                       (\<lambda>(images, prompt). Inr (images, prompt @ g)) = Inr (images, prompt)"
      unfolding chatml_prompt_from_messages_def with_generation_msg_def ta0 Inr
      by (simp only: prod.case sum.case snd_conv)
    then obtain st where loop0: "for_each ?turn ms' ([], []) = Inr st"
      and fin: "(\<lambda>(images, prompt). Inr (images, prompt @ g)) st
                  = (Inr (images, prompt) :: error + _)"
      unfolding ebind_Inr_iff by (elim exE conjE)
    obtain i p where st: "st = (i, p)" by (cases st)
    from fin st have i: "i = images" and prompt: "prompt = p @ g" by simp_all
    from loop0 st i have loop: "for_each ?turn ms' ([], []) = Inr (images, p)" by simp
    from ta0 [unfolded Inr] have ms': "ms' = remaining ms" by (rule trailing_assistant_remaining)
    from for_each_appends
           [where body = ?turn and out = snd and blk = "chatml_blocks img_tok" and xs = ms'
              and s = "([], [])" and s' = "(images, p)", OF chatml_turn_blocks loop]
    have "p = concat (map (chatml_blocks img_tok) ms')"
      by simp
    with ta0 Inr ms' prompt show ?thesis by simp
  qed
qed

lemma chatml_returns:
  assumes ta: "snd (trailing_assistant ''<|im_start|>assistant\<newline>'' ms) = Inr g"
    and ok: "\<forall>m \<in> set (remaining ms). walkable env m"
  shows "\<exists>images. snd (chatml_prompt_from_messages env img_tok ms)
           = Inr (images, concat (map (chatml_blocks img_tok) (remaining ms)) @ g)"
proof -
  let ?turn = "role_message env img_tok
             (\<lambda>img_tag text. ''<|im_start|>user\<newline>'' @ img_tag @ text @ ''<|im_end|>'')
             (\<lambda>text. ''<|im_start|>assistant\<newline>'' @ text @ ''<|im_end|>'')
             (Some (\<lambda>text. ''<|im_start|>system\<newline>'' @ text @ ''<|im_end|>''))"
  from ta obtain ms' where ta': "trailing_assistant ''<|im_start|>assistant\<newline>'' ms = (ms', Inr g)"
    by (cases "trailing_assistant ''<|im_start|>assistant\<newline>'' ms") auto
  then have ms': "ms' = remaining ms" by (rule trailing_assistant_remaining)
  have "\<exists>s'. ?turn m s = Inr s'" if "m \<in> set ms'" for m s
  proof -
    from that ok ms' have "walkable env m" by simp
    then show ?thesis by (rule chatml_turn_succeeds)
  qed
  then have "\<exists>s'. for_each ?turn ms' ([]::_ list, []::string) = Inr s'"
    by (rule for_each_succeeds)
  then obtain st where loop0: "for_each ?turn ms' ([], []) = Inr st" ..
  obtain images p where st: "st = (images, p)" by (cases st)
  from loop0 st have "snd (chatml_prompt_from_messages env img_tok ms) = Inr (images, p @ g)"
    unfolding chatml_prompt_from_messages_def with_generation_msg_def
    by (simp only: ta' prod.case sum.case snd_conv ebind.simps)
  with chatml_returns_blocks [OF this] ta show ?thesis by auto
qed


text \<open>
  C8 (as the code has it). The qwen2_5_vl backend compiles the messages one by one,
  in order. A message of a role other than user becomes one text block: the texts of
  all its parts joined with no separator when every part has a text, and a TypeError
  when a part has none (as an image_url part without a text). chatml does not join:
  whenever it returns, its prompt is the blocks of the walked messages in order,
  followed by the continuation marker, where a system or assistant message gives one
  wrapped block per text part; and it does return when the contents walked are lists
  of parts and the images of the user messages load.
\<close>

theorem non_user_text_parts:
  "(qwen_messages ms = Inr ds \<longleftrightarrow> list_all2 (\<lambda>m d. qwen_message m = Inr d) ms ds)
   \<and> (role m \<noteq> ''user'' \<longrightarrow>
        (\<forall>cs. content m = Parts cs \<longrightarrow>
           qwen_message m
             = (if \<forall>c \<in> set cs. c_text c \<noteq> None
                then Inr \<lparr>d_role = role m,
                          d_content = [Text_dict (Some (concat (map (\<lambda>c. the (c_text c)) cs)))]\<rparr>
                else Inl TypeError))
      \<and> (\<forall>str. content m = Str str \<longrightarrow>
           qwen_message m
             = (if str = [] then Inr \<lparr>d_role = role m, d_content = [Text_dict (Some [])]\<rparr>
                else Inl AttributeError)))
   \<and> (\<forall>images prompt.
        snd (chatml_prompt_from_messages env img_tok ms) = Inr (images, prompt) \<longrightarrow>
        (\<exists>g. snd (trailing_assistant ''<|im_start|>assistant\<newline>'' ms) = Inr g
            \<and> prompt = concat (map (chatml_blocks img_tok) (remaining ms)) @ g))
   \<and> (\<forall>g. snd (trailing_assistant ''<|im_start|>assistant\<newline>'' ms) = Inr g
            \<and> (\<forall>m \<in> set (remaining ms). walkable env m) \<longrightarrow>
        (\<exists>images. snd (chatml_prompt_from_messages env img_tok ms)
           = Inr (images, concat (map (chatml_blocks img_tok) (remaining ms)) @ g)))"
proof (intro conjI allI impI)
  show "qwen_messages ms = Inr ds \<longleftrightarrow> list_all2 (\<lambda>m d. qwen_message m = Inr d) ms ds"
    by (simp add: qwen_messages_def qwen_messages_loop)
next
  fix cs
  assume "role m \<noteq> ''user''" and "content m = Parts cs"
  then show "qwen_message m
             = (if \<forall>c \<in> set cs. c_text c \<noteq> None
                then Inr \<lparr>d_role = role m,
                          d_content = [Text_dict (Some (concat (map (\<lambda>c. the (c_text c)) cs)))]\<rparr>
                else Inl TypeError)"
    by (rule qwen_message_parts)
next
  fix str
  assume "role m \<noteq> ''user''" and "content m = Str str"
  then show "qwen_message m
             = (if str = [] then Inr \<lparr>d_role = role m, d_content = [Text_dict (Some [])]\<rparr>
                else Inl AttributeError)"
    by (rule qwen_message_str)
next
  fix images prompt
  assume "snd (chatml_prompt_from_messages env img_tok ms) = Inr (images, prompt)"
  then show "\<exists>g. snd (trailing_assistant ''<|im_start|>assistant\<newline>'' ms) = Inr g
            \<and> prompt = concat (map (chatml_blocks img_tok) (remaining ms)) @ g"
    by (rule chatml_returns_blocks)
next
  fix g
  assume "snd (trailing_assistant ''<|im_start|>assistant\<newline>'' ms) = Inr g
            \<and> (\<forall>m \<in> set (remaining ms). walkable env m)"
  then show "\<exists>images. snd (chatml_prompt_from_messages env img_tok ms)
           = Inr (images, concat (map (chatml_blocks img_tok) (remaining ms)) @ g)"
    by (blast intro: chatml_returns)
qed


theorem non_user_text_parts_witness:
  "role two_system_parts \<noteq> ''user''
   \<and> qwen_message two_system_parts
       = Inr \<lparr>d_role = ''system'', d_content = [Text_dict (Some ''Be terse.Be kind.'')]\<rparr>
   \<and> qwen_messages [two_system_parts]
       = Inr [\<lparr>d_role = ''system'', d_content = [Text_dict (Some ''Be terse.Be kind.'')]\<rparr>]
   \<and> role text_text_image \<noteq> ''user''
   \<and> qwen_message text_text_image = Inl TypeError
   \<and> snd (trailing_assistant ''<|im_start|>assistant\<newline>'' terse_chat)
       = Inr ''<|im_start|>assistant\<newline>It is''
   \<and> walkable offline_libs (terse_chat ! 0) \<and> walkable offline_libs (terse_chat ! 1)
   \<and> snd (chatml_prompt_from_messages offline_libs ''<image>\<newline>'' terse_chat)
       = Inr ([''image/png;base64,iVBORw0KGgo=''],
              ''<|im_start|>system\<newline>Be terse.<|im_end|><|im_start|>system\<newline>Be kind.<|im_end|><|im_start|>user\<newline><image>\<newline>What is this?<|im_end|><|im_start|>assistant\<newline>It is'')
   \<and> concat (map (chatml_blocks ''<image>\<newline>'') (remaining terse_chat))
         @ ''<|im_start|>assistant\<newline>It is''
       = ''<|im_start|>system\<newline>Be terse.<|im_end|><|im_start|>system\<newline>Be kind.<|im_end|><|im_start|>user\<newline><image>\<newline>What is this?<|im_end|><|im_start|>assistant\<newline>It is''"
proof -
  let ?cs = "[\<lparr>type = Text, c_text = Some ''Be terse.'', image_url = None\<rparr>,
              \<lparr>type = Text, c_text = Some ''Be kind.'', image_url = None\<rparr>]"
  let ?ds = "[\<lparr>type = Text, c_text = Some ''Be terse.'', image_url = None\<rparr>,
              \<lparr>type = Text, c_text = Some ''Be kind.'', image_url = None\<rparr>,
              \<lparr>type = Image_url, c_text = None,
                 image_url = Some \<lparr>url = ''data:image/png;base64,iVBORw0KGgo='',
                                   detail = Some ''auto''\<rparr>\<rparr>]"
  let ?d = "\<lparr>d_role = ''system'', d_content = [Text_dict (Some ''Be terse.Be kind.'')]\<rparr>"
  let ?P = "''<|im_start|>system\<newline>Be terse.<|im_end|><|im_start|>system\<newline>Be kind.<|im_end|><|im_start|>user\<newline><image>\<newline>What is this?<|im_end|><|im_start|>assistant\<newline>It is''"
  have load: "url_to_image offline_libs ''data:image/png;base64,iVBORw0KGgo=''
                = Inr ''image/png;base64,iVBORw0KGgo=''"
    by (simp add: url_to_image_def offline_libs_def startswith_def)
  have a: "role two_system_parts \<noteq> ''user''" "content two_system_parts = Parts ?cs"
    "role two_system_parts = ''system''"
    by (simp_all add: two_system_parts_def)
  have b: "role text_text_image \<noteq> ''user''" "content text_text_image = Parts ?ds"
    by (simp_all add: text_text_image_def)
  have ta: "snd (trailing_assistant ''<|im_start|>assistant\<newline>'' terse_chat)
              = Inr ''<|im_start|>assistant\<newline>It is''"
    by (simp add: trailing_assistant_def add_str_def terse_chat_def user_image_def)
  have rem: "remaining terse_chat = [terse_chat ! 0, terse_chat ! 1]"
    by (simp add: remaining_def terse_chat_def user_image_def)
  have w: "walkable offline_libs (terse_chat ! 0)" "walkable offline_libs (terse_chat ! 1)"
    by (simp_all add: walkable_def terse_chat_def user_image_def two_system_parts_def
          image_url_parts_def image_url_url_def load)
  have run: "snd (chatml_prompt_from_messages offline_libs ''<image>\<newline>'' terse_chat)
               = Inr ([''image/png;base64,iVBORw0KGgo=''], ?P)"
    by (simp add: chatml_prompt_from_messages_def with_generation_msg_def trailing_assistant_def
          add_str_def terse_chat_def user_image_def two_system_parts_def role_message_def
          image_and_text_def text_part_def image_url_url_def fmt_def load)
  note all = non_user_text_parts
  from all [of "[two_system_parts]" "[?d]" two_system_parts, THEN conjunct2, THEN conjunct1,
            THEN mp, OF a(1), THEN conjunct1, rule_format, OF a(2)] a(3)
  have 1: "qwen_message two_system_parts = Inr ?d"
    by simp
  from all [of "[two_system_parts]" "[?d]", THEN conjunct1] 1
  have 2: "qwen_messages [two_system_parts] = Inr [?d]"
    by simp
  from all [of "[]" "[]" text_text_image, THEN conjunct2, THEN conjunct1,
            THEN mp, OF b(1), THEN conjunct1, rule_format, OF b(2)]
  have 3: "qwen_message text_text_image = Inl TypeError"
    by simp
  from w rem have ws: "\<forall>m \<in> set (remaining terse_chat). walkable offline_libs m"
    by simp
  from all [of terse_chat "[]" two_system_parts offline_libs "''<image>\<newline>''",
            THEN conjunct2, THEN conjunct2, THEN conjunct2, rule_format, OF conjI, OF ta ws]
  obtain images where "snd (chatml_prompt_from_messages offline_libs ''<image>\<newline>'' terse_chat)
       = Inr (images, concat (map (chatml_blocks ''<image>\<newline>'') (remaining terse_chat))
                        @ ''<|im_start|>assistant\<newline>It is'')" ..
  with run have 4: "concat (map (chatml_blocks ''<image>\<newline>'') (remaining terse_chat))
                        @ ''<|im_start|>assistant\<newline>It is'' = ?P"
    by (simp only: sum.inject prod.inject)
  from a(1) 1 2 b(1) 3 ta w run 4 show ?thesis by (intro conjI)
qed

text \<open>
  C8 as stated fails for chatml: a system message with the two texts \<open>Be terse.\<close> and
  \<open>Be kind.\<close> gives two system blocks, and the joined text occurs nowhere in the
  prompt.
\<close>

theorem system_parts_wrapped_separately:
  "snd (chatml_prompt_from_messages offline_libs ''<image>\<newline>'' [two_system_parts])
     = Inr ([], ''<|im_start|>system\<newline>Be terse.<|im_end|><|im_start|>system\<newline>Be kind.<|im_end|><|im_start|>assistant\<newline>'')
   \<and> str_find ''<|im_start|>system\<newline>Be terse.<|im_end|><|im_start|>system\<newline>Be kind.<|im_end|><|im_start|>assistant\<newline>''
        ''Be terse.Be kind.'' = - 1"
  by (simp add: chatml_prompt_from_messages_def with_generation_msg_def trailing_assistant_def
        role_message_def text_part_def fmt_def two_system_parts_def startswith_def)

section \<open>The images returned\<close>

lemma for_each_collects:
  assumes step: "\<And>x s s'. body x s = Inr s' \<Longrightarrow> \<exists>new. img s' = img s @ new \<and> list_all2 P new (sel x)"
    and run: "for_each body xs s = Inr s'"
  shows "\<exists>new. img s' = img s @ new \<and> list_all2 P new (concat (map sel xs))"
  using run
proof (induction xs arbitrary: s)
  case Nil
  then show ?case by simp
next
  case (Cons x xs)
  from Cons.prems obtain s1 where first: "body x s = Inr s1" and rest: "for_each body xs s1 = Inr s'"
    by (auto simp: ebind_Inr_iff)
  from step [OF first] obtain new1 where n1: "img s1 = img s @ new1" "list_all2 P new1 (sel x)"
    by blast
  from Cons.IH [OF rest] obtain new2
    where n2: "img s' = img s1 @ new2" "list_all2 P new2 (concat (map sel xs))"
    by blast
  from n1 n2 have "img s' = img s @ (new1 @ new2)"
    and "list_all2 P (new1 @ new2) (concat (map sel (x # xs)))"
    by (simp_all add: list_all2_appendI)
  then show ?case by blast
qed

lemma concat_image_parts:
  "concat (map (\<lambda>c. if type c = Image_url then [c] else []) cs) = filter (\<lambda>c. type c = Image_url) cs"
  by (induction cs) simp_all

lemma for_content_collects:
  assumes step: "\<And>c s s'. body c s = Inr s' \<Longrightarrow>
                   \<exists>new. img s' = img s @ new
                     \<and> list_all2 P new (if type c = Image_url then [c] else [])"
    and run: "for_content body (content m) s = Inr s'"
  shows "\<exists>new. img s' = img s @ new \<and> list_all2 P new (image_url_parts m)"
proof (cases "content m")
  case (Str str)
  with run show ?thesis by (simp add: image_url_parts_def split: if_splits)
next
  case (Parts cs)
  with run have loop: "for_each body cs s = Inr s'" by simp
  have "\<exists>new. img s' = img s @ new
          \<and> list_all2 P new (concat (map (\<lambda>c. if type c = Image_url then [c] else []) cs))"
    by (rule for_each_collects
          [where body = body and img = img and P = P and xs = cs and s = s and s' = s'
             and sel = "\<lambda>c. if type c = Image_url then [c] else []", OF step loop])
  with Parts show ?thesis by (simp add: image_url_parts_def concat_image_parts)
qed

lemma image_and_text_collects:
  "image_and_text env img_tok c s = Inr s' \<Longrightarrow>
   \<exists>new. fst s' = fst s @ new
     \<and> list_all2 (loads (url_to_image env)) new (if type c = Image_url then [c] else [])"
  by (cases s) (auto simp: image_and_text_def ebind_Inr_iff loads_def split: if_splits)

lemma image_around_text_collects:
  "image_around_text url_handler img_tok img_end c s = Inr s' \<Longrightarrow>
   \<exists>new. fst s' = fst s @ new
     \<and> list_all2 (loads url_handler) new (if type c = Image_url then [c] else [])"
  by (cases s) (auto simp: image_around_text_def ebind_Inr_iff loads_def split: if_splits)

lemma image_part_collects:
  "image_part url_handler img_tok c s = Inr s' \<Longrightarrow>
   \<exists>new. fst s' = fst s @ new
     \<and> list_all2 (loads url_handler) new (if type c = Image_url then [c] else [])"
  by (cases s) (auto simp: image_part_def ebind_Inr_iff loads_def split: if_splits)

lemma phi3_image_part_collects:
  "phi3_image_part env img_tok c s = Inr s' \<Longrightarrow>
   \<exists>new. fst (snd s') = fst (snd s) @ new
     \<and> list_all2 (loads (url_to_image env)) new (if type c = Image_url then [c] else [])"
  by (cases s) (auto simp: phi3_image_part_def ebind_Inr_iff loads_def split: if_splits)

lemma role_message_collects:
  assumes "role_message env img_tok user_t assistant_t system_t m s = Inr s'"
  shows "\<exists>new. fst s' = fst s @ new
           \<and> list_all2 (loads (url_to_image env)) new
                (if role m = ''user'' then image_url_parts m else [])"
proof (cases "role m = ''user''")
  case True
  obtain images prompt where s: "s = (images, prompt)" by (cases s)
  from assms True s obtain t where
    loop: "for_content (image_and_text env img_tok) (content m) (images, [], Some []) = Inr t"
    and s': "fst s' = fst t"
    by (auto simp: role_message_def ebind_Inr_iff)
  from for_content_collects [where img = fst, OF image_and_text_collects loop] s s' True
  show ?thesis by simp
next
  case False
  with assms have "fst s' = fst s"
    by (cases s) (auto simp: role_message_def ebind_Inr_iff split: if_splits)
  with False show ?thesis by simp
qed

lemma question_message_collects:
  assumes "question_message url_handler img_tok img_end assistant_t system_t m s = Inr s'"
  shows "\<exists>new. fst s' = fst s @ new
           \<and> list_all2 (loads url_handler) new
                (if role m = ''user'' then image_url_parts m else [])"
proof (cases "role m = ''user''")
  case True
  obtain images prompt where s: "s = (images, prompt)" by (cases s)
  from assms True s obtain t where
    loop: "for_content (image_around_text url_handler img_tok img_end) (content m) (images, []) = Inr t"
    and s': "fst s' = fst t"
    by (auto simp: question_message_def ebind_Inr_iff)
  from for_content_collects [where img = fst, OF image_around_text_collects loop] s s' True
  show ?thesis by simp
next
  case False
  with assms have "fst s' = fst s"
    by (cases s) (auto simp: question_message_def ebind_Inr_iff split: if_splits)
  with False show ?thesis by simp
qed

lemma header_message_collects:
  assumes "header_message url_handler img_tok template m s = Inr s'"
  shows "\<exists>new. fst s' = fst s @ new \<and> list_all2 (loads url_handler) new (image_url_parts m)"
proof -
  obtain images prompt where s: "s = (images, prompt)" by (cases s)
  from assms s obtain t where
    loop: "for_content (image_part url_handler img_tok) (content m) (images, []) = Inr t"
    and s': "fst s' = fst t"
    by (auto simp: header_message_def ebind_Inr_iff)
  from for_content_collects [where img = fst, OF image_part_collects loop] s s'
  show ?thesis by simp
qed

lemma florence_message_collects:
  assumes "florence_message url_handler m s = Inr s'"
  shows "\<exists>new. fst s' = fst s @ new \<and> list_all2 (loads url_handler) new (image_url_parts m)"
proof -
  obtain images prompt where s: "s = (images, prompt)" by (cases s)
  from assms s obtain t where
    loop: "for_content (image_part url_handler []) (content m) (images, []) = Inr t"
    and s': "fst s' = fst t"
    by (auto simp: florence_message_def ebind_Inr_iff)
  from for_content_collects [where img = fst, OF image_part_collects loop] s s'
  show ?thesis by simp
qed

lemma phi3_message_collects:
  assumes "phi3_message env img_tok m s = Inr s'"
  shows "\<exists>new. fst (snd s') = fst (snd s) @ new
           \<and> list_all2 (loads (url_to_image env)) new (image_url_parts m)"
proof -
  obtain n images prompt where s: "s = (n, images, prompt)" by (cases s)
  from assms s obtain t where
    loop: "for_content (phi3_image_part env img_tok) (content m) (n, images, []) = Inr t"
    and s': "fst (snd s') = fst (snd t)"
    by (auto simp: phi3_message_def ebind_Inr_iff)
  from for_content_collects [where img = "\<lambda>s. fst (snd s)", OF phi3_image_part_collects loop] s s'
  show ?thesis by simp
qed


lemma user_parts_filter:
  "concat (map (\<lambda>m. if role m = ''user'' then image_url_parts m else []) ms)
     = concat (map image_url_parts (filter (\<lambda>m. role m = ''user'') ms))"
  by (induction ms) simp_all

lemma with_generation_msg_collects:
  assumes turn: "\<And>m s s'. turn m s = Inr s' \<Longrightarrow> \<exists>new. fst s' = fst s @ new \<and> list_all2 L new (sel m)"
    and ok: "snd (with_generation_msg g turn prompt0 ms) = Inr (images, prompt)"
  shows "list_all2 L images (concat (map sel (remaining ms)))"
proof -
  from ok obtain ms' g' p where ta: "trailing_assistant g ms = (ms', Inr g')"
    and loop: "for_each turn ms' ([], prompt0) = Inr (images, p)"
    by (auto simp: with_generation_msg_def ebind_Inr_iff split: prod.splits sum.splits)
  from ta have ms': "ms' = remaining ms" by (rule trailing_assistant_remaining)
  have "\<exists>new. fst (images, p) = fst ([], prompt0) @ new \<and> list_all2 L new (concat (map sel ms'))"
    by (rule for_each_collects
          [where body = turn and img = fst and P = L and sel = sel and xs = ms'
             and s = "([], prompt0)" and s' = "(images, p)", OF turn loop])
  with ms' show ?thesis by simp
qed

lemma without_generation_msg_collects:
  assumes turn: "\<And>m s s'. turn m s = Inr s' \<Longrightarrow> \<exists>new. fst s' = fst s @ new \<and> list_all2 L new (sel m)"
    and ok: "snd (without_generation_msg turn prompt0 ms) = Inr (images, prompt)"
  shows "list_all2 L images (concat (map sel ms))"
proof -
  from ok have loop: "for_each turn ms ([], prompt0) = Inr (images, prompt)"
    by (simp add: without_generation_msg_def)
  have "\<exists>new. fst (images, prompt) = fst ([], prompt0) @ new \<and> list_all2 L new (concat (map sel ms))"
    by (rule for_each_collects
          [where body = turn and img = fst and P = L and sel = sel and xs = ms
             and s = "([], prompt0)" and s' = "(images, prompt)", OF turn loop])
  then show ?thesis by simp
qed

lemma role_with:
  "snd (with_generation_msg g (role_message env img_tok user_t assistant_t system_t) prompt0 ms)
     = Inr (images, prompt) \<Longrightarrow>
   list_all2 (loads (url_to_image env)) images
     (concat (map image_url_parts (filter (\<lambda>m. role m = ''user'') (remaining ms))))"
  unfolding user_parts_filter [symmetric]
  by (rule with_generation_msg_collects [OF role_message_collects])

lemma role_without:
  "snd (without_generation_msg (role_message env img_tok user_t assistant_t system_t) prompt0 ms)
     = Inr (images, prompt) \<Longrightarrow>
   list_all2 (loads (url_to_image env)) images
     (concat (map image_url_parts (filter (\<lambda>m. role m = ''user'') ms)))"
  unfolding user_parts_filter [symmetric]
  by (rule without_generation_msg_collects [OF role_message_collects])

lemma question_with:
  "snd (with_generation_msg g (question_message url_handler img_tok img_end assistant_t system_t)
          prompt0 ms) = Inr (images, prompt) \<Longrightarrow>
   list_all2 (loads url_handler) images
     (concat (map image_url_parts (filter (\<lambda>m. role m = ''user'') (remaining ms))))"
  unfolding user_parts_filter [symmetric]
  by (rule with_generation_msg_collects [OF question_message_collects])

lemma question_without:
  "snd (without_generation_msg (question_message url_handler img_tok img_end assistant_t system_t)
          prompt0 ms) = Inr (images, prompt) \<Longrightarrow>
   list_all2 (loads url_handler) images
     (concat (map image_url_parts (filter (\<lambda>m. role m = ''user'') ms)))"
  unfolding user_parts_filter [symmetric]
  by (rule without_generation_msg_collects [OF question_message_collects])

lemma header_with:
  "snd (with_generation_msg g (header_message url_handler img_tok template) prompt0 ms)
     = Inr (images, prompt) \<Longrightarrow>
   list_all2 (loads url_handler) images (concat (map image_url_parts (remaining ms)))"
  by (rule with_generation_msg_collects [OF header_message_collects])

lemma florence_collects:
  "snd (florence_prompt_from_messages url_handler ms) = Inr (images, prompt) \<Longrightarrow>
   list_all2 (loads url_handler) images (concat (map image_url_parts ms))"
  unfolding florence_prompt_from_messages_def
  by (rule without_generation_msg_collects [OF florence_message_collects])

lemma phi3_collects:
  assumes "snd (phi3_prompt_from_messages env img_tok ms) = Inr (images, prompt)"
  shows "list_all2 (loads (url_to_image env)) images (concat (map image_url_parts (remaining ms)))"
proof -
  from assms obtain ms' g' n p where ta: "trailing_assistant ''<|assistant|>\<newline>'' ms = (ms', Inr g')"
    and loop: "for_each (phi3_message env img_tok) ms' (1, [], []) = Inr (n, images, p)"
    by (auto simp: phi3_prompt_from_messages_def ebind_Inr_iff split: prod.splits sum.splits)
  from ta have ms': "ms' = remaining ms" by (rule trailing_assistant_remaining)
  have "\<exists>new. fst (snd (n, images, p)) = fst (snd (1::nat, [], []::string)) @ new
          \<and> list_all2 (loads (url_to_image env)) new (concat (map image_url_parts ms'))"
    by (rule for_each_collects
          [where body = "phi3_message env img_tok" and img = "\<lambda>s. fst (snd s)"
             and P = "loads (url_to_image env)" and sel = image_url_parts and xs = ms'
             and s = "(1::nat, [], [])" and s' = "(n, images, p)", OF phi3_message_collects loop])
  with ms' show ?thesis by simp
qed

lemma emu_message_collects:
  assumes "emu_message env img_tok m s = Inr s'"
  shows "\<exists>new. fst s' = fst s @ new
           \<and> list_all2 (loads (url_to_image env)) new
                (if role m = ''user'' then image_url_parts m else [])"
proof (cases "role m = ''user''")
  case True
  obtain images prompt system_message where s: "s = (images, prompt, system_message)"
    by (cases s)
  from assms True s obtain t where
    loop: "for_content (image_and_text env img_tok) (content m) (images, [], Some []) = Inr t"
    and s': "fst s' = fst t"
    by (auto simp: emu_message_def ebind_Inr_iff)
  from for_content_collects [where img = fst, OF image_and_text_collects loop] s s' True
  show ?thesis by simp
next
  case False
  with assms have "fst s' = fst s"
    by (cases s) (auto simp: emu_message_def ebind_Inr_iff split: if_splits)
  with False show ?thesis by simp
qed

lemma emu_collects:
  assumes "snd (emu_images_prompt env img_tok ms) = Inr (images, prompt)"
  shows "list_all2 (loads (url_to_image env)) images
           (concat (map image_url_parts (filter (\<lambda>m. role m = ''user'') (remaining ms))))"
proof -
  from assms obtain ms' g' p sm where ta: "trailing_assistant '' [ASSISTANT]:'' ms = (ms', Inr g')"
    and loop: "for_each (emu_message env img_tok) ms' ([], [], None) = Inr (images, p, sm)"
    by (auto simp: emu_images_prompt_def emu_images_prompt_system_from_messages_def
          ebind_Inr_iff split: prod.splits sum.splits)
  from ta have ms': "ms' = remaining ms" by (rule trailing_assistant_remaining)
  have "\<exists>new. fst (images, p, sm) = fst ([], []::string, None::string option) @ new
          \<and> list_all2 (loads (url_to_image env)) new
               (concat (map (\<lambda>m. if role m = ''user'' then image_url_parts m else []) ms'))"
    by (rule for_each_collects
          [where body = "emu_message env img_tok" and img = fst
             and P = "loads (url_to_image env)"
             and sel = "\<lambda>m. if role m = ''user'' then image_url_parts m else []" and xs = ms'
             and s = "([], [], None)" and s' = "(images, p, sm)", OF emu_message_collects loop])
  with ms' show ?thesis by (simp add: user_parts_filter)
qed

lemma history_image_text_collects:
  "history_image_text url_handler img_tok c s = Inr s' \<Longrightarrow>
   \<exists>new. fst s' = fst s @ new
     \<and> list_all2 (loads url_handler) new (if type c = Image_url then [c] else [])"
  by (cases s) (auto simp: history_image_text_def ebind_Inr_iff loads_def split: if_splits)

lemma history_message_collects:
  assumes "history_message url_handler img_tok m s = Inr s'"
  shows "\<exists>new. fst (snd s') = fst (snd s) @ new
           \<and> list_all2 (loads url_handler) new
                (if role m = ''user'' then image_url_parts m else [])"
proof (cases "role m = ''user''")
  case True
  obtain history images prompt system_prompt
    where s: "s = (history, images, prompt, system_prompt)"
    by (cases s)
  from assms True s obtain t where
    loop: "for_content (history_image_text url_handler img_tok) (content m) (images, []) = Inr t"
    and s': "fst (snd s') = fst t"
    by (auto simp: history_message_def ebind_Inr_iff)
  from for_content_collects [where img = fst, OF history_image_text_collects loop] s s' True
  show ?thesis by simp
next
  case False
  with assms have "fst (snd s') = fst (snd s)"
    by (cases s) (auto simp: history_message_def ebind_Inr_iff split: if_splits)
  with False show ?thesis by simp
qed

lemma history_collects:
  assumes "snd (history_images_prompt url_handler img_tok ms) = Inr (images, prompt)"
  shows "list_all2 (loads url_handler) images
           (concat (map image_url_parts (filter (\<lambda>m. role m = ''user'') ms)))"
proof -
  from assms obtain h sp
    where loop: "for_each (history_message url_handler img_tok) ms ([], [], [], None)
                   = Inr (h, images, prompt, sp)"
    by (auto simp: history_images_prompt_def prompt_history_images_system_from_messages_def
          ebind_Inr_iff)
  have "\<exists>new. fst (snd (h, images, prompt, sp))
                = fst (snd ([]::(string \<times> string option) list, [], []::string,
                            None::string option)) @ new
          \<and> list_all2 (loads url_handler) new
               (concat (map (\<lambda>m. if role m = ''user'' then image_url_parts m else []) ms))"
    by (rule for_each_collects
          [where body = "history_message url_handler img_tok" and img = "\<lambda>s. fst (snd s)"
             and P = "loads url_handler"
             and sel = "\<lambda>m. if role m = ''user'' then image_url_parts m else []" and xs = ms
             and s = "([], [], [], None)" and s' = "(h, images, prompt, sp)",
           OF history_message_collects loop])
  then show ?thesis by (simp add: user_parts_filter)
qed

lemma user_image_formats_collect:
  "(f, extracts) \<in> set (user_image_formats env) \<Longrightarrow> snd (f ms) = Inr (images, prompt) \<Longrightarrow>
   list_all2 (loads (url_to_image env)) images
     (concat (map image_url_parts
        (filter (\<lambda>m. role m = ''user'') (if extracts then remaining ms else ms))))"
  unfolding user_image_formats_def chatml_prompt_from_messages_def falcon_prompt_from_messages_def
    fuyu_prompt_from_messages_def gemma_prompt_from_messages_def llama2_prompt_from_messages_def
    phi15_prompt_from_messages_def phintern_prompt_from_messages_def
    vicuna_prompt_from_messages_def vicuna0_prompt_from_messages_def
  by (auto dest: role_with role_without question_with question_without emu_collects
        history_collects)

lemma every_image_formats_collect:
  "(f, extracts) \<in> set (every_image_formats env) \<Longrightarrow> snd (f ms) = Inr (images, prompt) \<Longrightarrow>
   list_all2 (loads (url_to_image env)) images
     (concat (map image_url_parts (if extracts then remaining ms else ms)))"
  unfolding every_image_formats_def glm4v_prompt_from_messages_def llama3_prompt_from_messages_def
  by (auto dest: header_with florence_collects phi3_collects)


text \<open>
  C2 (as the code has it). When a format function returns, the images it returns are,
  one for one and in order, the images loaded from the image_url parts of the messages
  it walks: for chatml, falcon, fuyu, gemma, llama2 (also registered as mistral), phi15,
  phintern, vicuna and vicuna0 the parts of the user messages only; for florence,
  glm4v, llama3 and phi3 the parts of every message. The messages walked are those
  remaining after the trailing assistant message is taken off, for the functions that
  take it off. So the number of images is the number of those parts.
\<close>

theorem images_in_encounter_order:
  "(\<forall>(f, extracts) \<in> set (user_image_formats env). \<forall>images prompt.
      snd (f ms) = Inr (images, prompt) \<longrightarrow>
      list_all2 (loads (url_to_image env)) images
        (concat (map image_url_parts
           (filter (\<lambda>m. role m = ''user'') (if extracts then remaining ms else ms)))))
   \<and> (\<forall>(f, extracts) \<in> set (every_image_formats env). \<forall>images prompt.
        snd (f ms) = Inr (images, prompt) \<longrightarrow>
        list_all2 (loads (url_to_image env)) images
          (concat (map image_url_parts (if extracts then remaining ms else ms))))"
proof (intro conjI ballI)
  fix fe
  assume mem: "fe \<in> set (user_image_formats env)"
  obtain f extracts where fe: "fe = (f, extracts)" by (cases fe)
  show "case fe of (f, extracts) \<Rightarrow> \<forall>images prompt.
      snd (f ms) = Inr (images, prompt) \<longrightarrow>
      list_all2 (loads (url_to_image env)) images
        (concat (map image_url_parts
           (filter (\<lambda>m. role m = ''user'') (if extracts then remaining ms else ms))))"
    unfolding fe prod.case
    using user_image_formats_collect [OF mem [unfolded fe]] by blast
next
  fix fe
  assume mem: "fe \<in> set (every_image_formats env)"
  obtain f extracts where fe: "fe = (f, extracts)" by (cases fe)
  show "case fe of (f, extracts) \<Rightarrow> \<forall>images prompt.
        snd (f ms) = Inr (images, prompt) \<longrightarrow>
        list_all2 (loads (url_to_image env)) images
          (concat (map image_url_parts (if extracts then remaining ms else ms)))"
    unfolding fe prod.case
    using every_image_formats_collect [OF mem [unfolded fe]] by blast
qed

theorem images_in_encounter_order_witness:
  "(chatml_prompt_from_messages offline_libs ''<image>\<newline>'', True)
     \<in> set (user_image_formats offline_libs)
   \<and> snd (chatml_prompt_from_messages offline_libs ''<image>\<newline>'' user_image)
       = Inr ([''image/png;base64,iVBORw0KGgo=''],
              ''<|im_start|>user\<newline><image>\<newline>What is this?<|im_end|><|im_start|>assistant\<newline>It is'')
   \<and> list_all2 (loads (url_to_image offline_libs)) [''image/png;base64,iVBORw0KGgo='']
        (concat (map image_url_parts (filter (\<lambda>m. role m = ''user'') (remaining user_image))))
   \<and> (llama3_prompt_from_messages offline_libs ''<image>'', True)
       \<in> set (every_image_formats offline_libs)
   \<and> snd (llama3_prompt_from_messages offline_libs ''<image>'' user_image)
       = Inr ([''image/png;base64,iVBORw0KGgo=''],
              ''<|start_header_id|>user<|end_header_id|>\<newline>\<newline><image>What is this?<|eot_id|><|start_header_id|>assistant<|end_header_id|>\<newline>\<newline>It is'')
   \<and> list_all2 (loads (url_to_image offline_libs)) [''image/png;base64,iVBORw0KGgo='']
        (concat (map image_url_parts (remaining user_image)))"
proof -
  have load: "url_to_image offline_libs ''data:image/png;base64,iVBORw0KGgo=''
                = Inr ''image/png;base64,iVBORw0KGgo=''"
    by (simp add: url_to_image_def offline_libs_def startswith_def)
  have m1: "(chatml_prompt_from_messages offline_libs ''<image>\<newline>'', True)
              \<in> set (user_image_formats offline_libs)"
    by (simp add: user_image_formats_def)
  have m2: "(llama3_prompt_from_messages offline_libs ''<image>'', True)
              \<in> set (every_image_formats offline_libs)"
    by (simp add: every_image_formats_def)
  have r1: "snd (chatml_prompt_from_messages offline_libs ''<image>\<newline>'' user_image)
       = Inr ([''image/png;base64,iVBORw0KGgo=''],
              ''<|im_start|>user\<newline><image>\<newline>What is this?<|im_end|><|im_start|>assistant\<newline>It is'')"
    by (simp add: chatml_prompt_from_messages_def with_generation_msg_def trailing_assistant_def
          add_str_def user_image_def role_message_def image_and_text_def image_url_url_def
          fmt_def load)
  have is_space: "\<not> is_space CHR ''W''" "\<not> is_space CHR ''?''"
    by (simp_all add: is_space_def)
  have strip: "strip ''What is this?'' = ''What is this?''"
    by (simp add: strip_def is_space)
  have r2: "snd (llama3_prompt_from_messages offline_libs ''<image>'' user_image)
       = Inr ([''image/png;base64,iVBORw0KGgo=''],
              ''<|start_header_id|>user<|end_header_id|>\<newline>\<newline><image>What is this?<|eot_id|><|start_header_id|>assistant<|end_header_id|>\<newline>\<newline>It is'')"
    by (simp add: llama3_prompt_from_messages_def with_generation_msg_def trailing_assistant_def
          add_str_def user_image_def header_message_def image_part_def text_after_images_def
          image_url_url_def load strip)
  note all = images_in_encounter_order [of offline_libs user_image]
  from all [THEN conjunct1, rule_format, OF m1] r1
  have 1: "list_all2 (loads (url_to_image offline_libs)) [''image/png;base64,iVBORw0KGgo='']
        (concat (map image_url_parts (filter (\<lambda>m. role m = ''user'') (remaining user_image))))"
    by (simp only: prod.case if_True)
  from all [THEN conjunct2, rule_format, OF m2] r2
  have 2: "list_all2 (loads (url_to_image offline_libs)) [''image/png;base64,iVBORw0KGgo='']
        (concat (map image_url_parts (remaining user_image)))"
    by (simp only: prod.case if_True)
  from m1 m2 r1 r2 1 2 show ?thesis by blast
qed

text \<open>
  C2 as stated fails: chatml does not load the image of a system message, so it
  returns no image where the remaining messages hold one image_url part.
\<close>

theorem system_image_not_loaded:
  "snd (chatml_prompt_from_messages offline_libs ''<image>\<newline>'' system_image)
     = Inr ([], ''<|im_start|>user\<newline>What is this?<|im_end|><|im_start|>assistant\<newline>'')
   \<and> length (concat (map image_url_parts (remaining system_image))) = 1"
  by (simp add: chatml_prompt_from_messages_def with_generation_msg_def trailing_assistant_def
        system_image_def role_message_def image_and_text_def text_part_def fmt_def
        remaining_def image_url_parts_def)

section \<open>Image loading: inputs without a branch\<close>

text \<open>
  C9. \<^verbatim>\<open>url_to_image\<close> takes a branch only for a string that starts with
  \<^verbatim>\<open>http\<close> or \<^verbatim>\<open>data:\<close>. For every other string it raises (the unbound local
  \<^verbatim>\<open>img_data\<close>) before any library is asked for an image.
\<close>

theorem url_to_image_other_scheme:
  "\<not> startswith img_url ''http'' \<Longrightarrow> \<not> startswith img_url ''data:''
     \<Longrightarrow> url_to_image env img_url = Inl UnboundLocalError"
  by (simp add: url_to_image_def)

theorem url_to_image_other_scheme_witness:
  "\<not> startswith ''ftp://host/cat.png'' ''http'' \<and> \<not> startswith ''ftp://host/cat.png'' ''data:''
   \<and> url_to_image \<lparr>requests_get = (\<lambda>u. Inr u), datauri_data = (\<lambda>u. Inr u),
                    image_open = (\<lambda>d. Inr d)\<rparr> ''ftp://host/cat.png'' = Inl UnboundLocalError"
  using url_to_image_other_scheme
    [of "''ftp://host/cat.png''"
        "\<lparr>requests_get = (\<lambda>u. Inr u), datauri_data = (\<lambda>u. Inr u), image_open = (\<lambda>d. Inr d)\<rparr>"]
  by (simp add: startswith_def)

end
